theory Spec2Isabelle
  imports Complex_Main
begin

section \<open>AutoPolicy: a PID driving policy with emergency stop (core/policy/auto\_policy.py)\<close>

text \<open>
  The policy keeps one low-level controller per environment id in \<open>_controller_dict\<close> and the
  last steer it produced in \<open>_last_steer_dict\<close>. Python floats are modelled as reals: the
  policy only compares them and takes minima, which is exact on floats (NaN left aside).
  Errors are values; a call returns its result together with the policy state it leaves
  behind, since a Python exception keeps the mutations made before it was raised.
\<close>

subsection \<open>Data\<close>

type_synonym vec3 = "real \<times> real \<times> real"

text \<open>A PID gain dictionary \<open>{'K_P': .., 'K_D': .., 'K_I': .., 'dt': ..}\<close>.\<close>

record gains =
  K_P :: real
  K_D :: real
  K_I :: real
  dt :: real

definition DEFAULT_LATERAL_DICT :: gains where
  "DEFAULT_LATERAL_DICT = \<lparr>K_P = 1, K_D = 0.1, K_I = 0, dt = 0.1\<rparr>"

definition DEFAULT_LONGITUDINAL_DICT :: gains where
  "DEFAULT_LONGITUDINAL_DICT = \<lparr>K_P = 1.0, K_D = 0, K_I = 0.05, dt = 0.1\<rparr>"

definition DEFAULT_LAT_HW_DICT :: gains where
  "DEFAULT_LAT_HW_DICT = \<lparr>K_P = 0.75, K_D = 0.01, K_I = 0.2, dt = 0.1\<rparr>"

definition DEFAULT_LAT_CITY_DICT :: gains where
  "DEFAULT_LAT_CITY_DICT = \<lparr>K_P = 0.58, K_D = 0.01, K_I = 0.25, dt = 0.1\<rparr>"

definition DEFAULT_LONG_HW_DICT :: gains where
  "DEFAULT_LONG_HW_DICT = \<lparr>K_P = 0.37, K_D = 0.012, K_I = 0.016, dt = 0.1\<rparr>"

definition DEFAULT_LONG_CITY_DICT :: gains where
  "DEFAULT_LONG_CITY_DICT = \<lparr>K_P = 0.15, K_D = 0.025, K_I = 0.035, dt = 0.1\<rparr>"

text \<open>The control command \<open>{'steer': .., 'throttle': .., 'brake': ..}\<close>.\<close>

record control =
  steer :: real
  throttle :: real
  brake :: real

text \<open>
  An observation with the keys \<open>_forward\<close> reads. The record has every key: an observation
  that lacks one (a KeyError in Python) is outside the model.
\<close>

record obs =
  command :: int
  agent_state :: int
  tl_state :: int
  tl_dis :: real
  speed :: real
  location :: vec3
  orientation :: vec3
  target :: vec3
  speed_limit :: real

text \<open>The configuration \<open>cfg\<close>; a gain dictionary may be configured as \<open>None\<close>.\<close>

record config =
  cfg_target_speed :: real
  cfg_max_brake :: real
  cfg_max_throttle :: real
  cfg_max_steer :: real
  cfg_ignore_light :: bool
  cfg_lateral_dict :: "gains option"
  cfg_longitudinal_dict :: "gains option"
  cfg_noise :: bool
  cfg_debug :: bool

text \<open>The class attribute \<open>AutoPolicy.config\<close>.\<close>

definition default_config :: config where
  "default_config =
     \<lparr>cfg_target_speed = 25, cfg_max_brake = 0.3, cfg_max_throttle = 0.75, cfg_max_steer = 0.8,
      cfg_ignore_light = False,
      cfg_lateral_dict = Some DEFAULT_LATERAL_DICT,
      cfg_longitudinal_dict = Some DEFAULT_LONGITUDINAL_DICT,
      cfg_noise = False, cfg_debug = False\<rparr>"

datatype error = KeyError int | RuntimeError string

subsection \<open>What lies outside the sources\<close>

text \<open>
  \<open>core.models\<close> is not part of the sources at hand. The PID controller is a parameter:
  \<open>'c\<close> is the state of a \<open>VehiclePIDController\<close> object (gains, limits, accumulated errors),
  \<open>VehiclePIDController\<close> its constructor with the keyword arguments of \<open>_reset\<close> in the order
  args\_lateral, args\_longitudinal, max\_throttle, max\_brake, max\_steering, and \<open>pid_forward\<close>
  its \<open>forward\<close> method with the positional arguments of \<open>_forward\<close>: current speed, current
  location, current orientation, target speed, target location. It returns the command and
  the controller object as the call leaves it.

  \<open>dict_growth n\<close> is the number of usable entry slots of the table the interpreter
  allocates when a dictionary with \<open>n\<close> live entries has run out of slots. The number
  differs between releases of CPython, so it is a parameter as well.
\<close>

record 'c extern =
  VehiclePIDController :: "gains \<Rightarrow> gains \<Rightarrow> real \<Rightarrow> real \<Rightarrow> real \<Rightarrow> 'c"
  pid_forward :: "'c \<Rightarrow> real \<Rightarrow> vec3 \<Rightarrow> vec3 \<Rightarrow> real \<Rightarrow> vec3 \<Rightarrow> control \<times> 'c"
  dict_growth :: "nat \<Rightarrow> nat"

text \<open>
  An entry of \<open>_controller_dict\<close>: the bare controller, or the \<open>SteerNoiseWrapper\<close> object built
  around it with its \<open>noise_type\<close> and the \<open>low\<close> and \<open>high\<close> of \<open>noise_kwargs\<close>.
\<close>

datatype 'c controller =
  PID 'c
| SteerNoiseWrapper (model: 'c) (noise_type: string) (low: real) (high: real)

text \<open>
  Modelled from the spec: \<open>SteerNoiseWrapper.forward\<close>, which is missing from the sources. The
  spec has it decorate the motion controller's output, "perturbing steer by a uniform random
  offset in a configured range, leaving throttle/brake untouched". The random draw is an
  input: \<open>u\<close> is the sample of the unit interval that the uniform generator scales to the
  range from \<open>low\<close> to \<open>high\<close>. A bare controller ignores it.
\<close>

definition uniform :: "real \<Rightarrow> real \<Rightarrow> real \<Rightarrow> real" where
  "uniform lo hi u = lo + (hi - lo) * u"

fun controller_forward ::
  "'c extern \<Rightarrow> 'c controller \<Rightarrow> real \<Rightarrow> vec3 \<Rightarrow> vec3 \<Rightarrow> real \<Rightarrow> vec3 \<Rightarrow> real
     \<Rightarrow> control \<times> 'c controller" where
  "controller_forward api (PID c) v loc ori tv tloc u =
     (case pid_forward api c v loc ori tv tloc of (ctl, c') \<Rightarrow> (ctl, PID c'))"
| "controller_forward api (SteerNoiseWrapper c ty lo hi) v loc ori tv tloc u =
     (case pid_forward api c v loc ori tv tloc of
        (ctl, c') \<Rightarrow> (ctl\<lparr>steer := steer ctl + uniform lo hi u\<rparr>, SteerNoiseWrapper c' ty lo hi))"

subsection \<open>The dictionary of controllers\<close>

text \<open>
  \<open>_reset_eval\<close> and \<open>_reset_collect\<close> iterate over \<open>_controller_dict\<close> while \<open>_reset\<close> pops and
  stores keys of it, so the order of its entries and what its iterator sees matter. The
  dictionary is modelled as CPython (3.8 and later) lays it out: the entries in insertion
  order, a popped entry leaving an empty slot behind, a new key taking the next slot, and
  the table rebuilt without the empty slots once \<open>dk_usable\<close>, the number of slots left, is
  used up. A fresh or cleared dictionary gets a table with 5 usable slots at its first store.
\<close>

record 'v pydict =
  dk_entries :: "(int \<times> 'v) option list"
  dk_usable :: nat

definition dict_new :: "'v pydict" where
  "dict_new = \<lparr>dk_entries = [], dk_usable = 5\<rparr>"

fun live :: "'a option list \<Rightarrow> 'a list" where
  "live [] = []"
| "live (None # es) = live es"
| "live (Some e # es) = e # live es"

definition ma_used :: "'v pydict \<Rightarrow> nat" where
  "ma_used d = length (live (dk_entries d))"

text \<open>\<open>d[k]\<close>: \<open>None\<close> stands for the KeyError.\<close>

definition dict_getitem :: "'v pydict \<Rightarrow> int \<Rightarrow> 'v option" where
  "dict_getitem d k = map_of (live (dk_entries d)) k"

text \<open>\<open>list(d)\<close>: the keys in iteration order.\<close>

definition dict_keys :: "'v pydict \<Rightarrow> int list" where
  "dict_keys d = map fst (live (dk_entries d))"

definition dict_contains :: "'v pydict \<Rightarrow> int \<Rightarrow> bool" where
  "dict_contains d k = (dict_getitem d k \<noteq> None)"

text \<open>\<open>d.pop(k)\<close> for a key that is present: its slot is emptied.\<close>

definition dict_pop :: "'v pydict \<Rightarrow> int \<Rightarrow> 'v pydict" where
  "dict_pop d k =
     d\<lparr>dk_entries := map (\<lambda>e. case e of None \<Rightarrow> None
                                 | Some (k', v) \<Rightarrow> if k' = k then None else Some (k', v))
                          (dk_entries d)\<rparr>"

text \<open>The value under a present key is replaced in its slot; the layout stays.\<close>

definition dict_replace :: "'v pydict \<Rightarrow> int \<Rightarrow> 'v \<Rightarrow> 'v pydict" where
  "dict_replace d k v =
     d\<lparr>dk_entries := map (\<lambda>e. case e of None \<Rightarrow> None
                                 | Some (k', v') \<Rightarrow> if k' = k then Some (k', v) else Some (k', v'))
                          (dk_entries d)\<rparr>"

definition dict_resize :: "(nat \<Rightarrow> nat) \<Rightarrow> 'v pydict \<Rightarrow> 'v pydict" where
  "dict_resize growth d =
     \<lparr>dk_entries = map Some (live (dk_entries d)), dk_usable = growth (ma_used d) - ma_used d\<rparr>"

text \<open>\<open>d[k] = v\<close>.\<close>

definition dict_setitem :: "(nat \<Rightarrow> nat) \<Rightarrow> 'v pydict \<Rightarrow> int \<Rightarrow> 'v \<Rightarrow> 'v pydict" where
  "dict_setitem growth d k v =
     (if dict_contains d k then dict_replace d k v
      else let d' = (if dk_usable d = 0 then dict_resize growth d else d)
           in d'\<lparr>dk_entries := dk_entries d' @ [Some (k, v)], dk_usable := dk_usable d' - 1\<rparr>)"

text \<open>The first live entry at or after slot \<open>i\<close>, with its slot number.\<close>

fun skip_empty :: "'a option list \<Rightarrow> nat \<Rightarrow> (nat \<times> 'a) option" where
  "skip_empty [] i = None"
| "skip_empty (None # es) i = skip_empty es (Suc i)"
| "skip_empty (Some e # es) i = Some (i, e)"

definition next_entry :: "'v pydict \<Rightarrow> nat \<Rightarrow> (nat \<times> int \<times> 'v) option" where
  "next_entry d pos = skip_empty (drop pos (dk_entries d)) pos"

subsection \<open>The policy object\<close>

record 'c AutoPolicy =
  cfg :: config
  target_speed :: real
  max_brake :: real
  max_throttle :: real
  max_steer :: real
  ignore_traffic_light :: bool
  lateral_dict :: "gains option"
  longitudinal_dict :: "gains option"
  controller_dict :: "'c controller pydict"
  last_steer_dict :: "int \<rightharpoonup> real"
  debug :: bool

definition init :: "'c AutoPolicy \<Rightarrow> 'c AutoPolicy" where
  "init s =
     s\<lparr>target_speed := cfg_target_speed (cfg s),
       max_brake := cfg_max_brake (cfg s),
       max_throttle := cfg_max_throttle (cfg s),
       max_steer := cfg_max_steer (cfg s),
       ignore_traffic_light := cfg_ignore_light (cfg s),
       lateral_dict := cfg_lateral_dict (cfg s),
       longitudinal_dict := cfg_longitudinal_dict (cfg s),
       controller_dict := dict_new,
       last_steer_dict := Map.empty,
       debug := cfg_debug (cfg s)\<rparr>"

definition init_collect :: "'c AutoPolicy \<Rightarrow> 'c AutoPolicy" where
  "init_collect s = init s"

definition init_eval :: "'c AutoPolicy \<Rightarrow> 'c AutoPolicy" where
  "init_eval s = init s"

text \<open>
  \<open>__init__\<close>: one \<open>_controller_dict\<close> and one \<open>_last_steer_dict\<close> are created, then the
  initialiser of each mode runs. The attributes that \<open>_init\<close> binds do not exist before it
  runs; the record needs some value for them, which \<open>_init\<close> overwrites.
\<close>

definition AutoPolicy_new :: "config \<Rightarrow> 'c AutoPolicy" where
  "AutoPolicy_new c =
     init_eval (init_collect
       \<lparr>cfg = c, target_speed = 0, max_brake = 0, max_throttle = 0, max_steer = 0,
        ignore_traffic_light = False, lateral_dict = None, longitudinal_dict = None,
        controller_dict = dict_new, last_steer_dict = Map.empty, debug = False\<rparr>)"

definition reset :: "'c extern \<Rightarrow> int \<Rightarrow> bool \<Rightarrow> 'c AutoPolicy \<Rightarrow> 'c AutoPolicy" where
  "reset api data_id noise s =
     (let d = (if dict_contains (controller_dict s) data_id
               then dict_pop (controller_dict s) data_id else controller_dict s);
          lat = (case lateral_dict s of
                   None \<Rightarrow> if target_speed s > 50 then DEFAULT_LAT_HW_DICT
                           else DEFAULT_LAT_CITY_DICT
                 | Some g \<Rightarrow> g);
          lon = (case longitudinal_dict s of
                   None \<Rightarrow> if target_speed s > 50 then DEFAULT_LONG_HW_DICT
                           else DEFAULT_LONG_CITY_DICT
                 | Some g \<Rightarrow> g);
          controller = VehiclePIDController api lat lon (max_throttle s) (max_brake s) (max_steer s);
          entry = (if noise then SteerNoiseWrapper controller ''uniform'' (- 0.3) 0.3
                   else PID controller)
      in s\<lparr>lateral_dict := Some lat,
           longitudinal_dict := Some lon,
           controller_dict := dict_setitem (dict_growth api) d data_id entry,
           last_steer_dict := (last_steer_dict s)(data_id \<mapsto> 0)\<rparr>)"

definition emergency_stop :: "int \<Rightarrow> 'c AutoPolicy \<Rightarrow> error + control" where
  "emergency_stop data_id s =
     (case last_steer_dict s data_id of
        None \<Rightarrow> Inl (KeyError data_id)
      | Some st \<Rightarrow> Inr \<lparr>steer = st, throttle = 0.0, brake = 1.0\<rparr>)"

text \<open>
  \<open>_forward\<close>. The condition of the throttle cap is the source's
  \<open>abs(control['steer'] > 0.1 and current_speed > 15)\<close>: \<open>abs\<close> is applied to the truth value
  of the conjunction, which it leaves as it is. \<open>controller.forward\<close> changes the controller
  object in place; the dictionary keeps its layout.
\<close>

definition forward ::
  "'c extern \<Rightarrow> int \<Rightarrow> obs \<Rightarrow> real \<Rightarrow> 'c AutoPolicy \<Rightarrow> (error + control) \<times> 'c AutoPolicy" where
  "forward api data_id ob u s =
     (case dict_getitem (controller_dict s) data_id of
        None \<Rightarrow> (Inl (KeyError data_id), s)
      | Some controller \<Rightarrow>
          if command ob = - 1 then (emergency_stop data_id s, s)
          else if agent_state ob = 2 \<or> agent_state ob = 3 then (emergency_stop data_id s, s)
          else if \<not> ignore_traffic_light s \<and> agent_state ob = 4
            then (emergency_stop data_id s, s)
          else if \<not> ignore_traffic_light s \<and> tl_state ob = 0 \<and> tl_dis ob < 10
            then (emergency_stop data_id s, s)
          else
            (let current_speed = speed ob;
                 current_location = location ob;
                 current_orientation = orientation ob;
                 target_location = target ob;
                 target_speed = min (target_speed s) (speed_limit ob)
             in case controller_forward api controller current_speed current_location
                       current_orientation target_speed target_location u of
                  (control, controller') \<Rightarrow>
                    (let control' = (if steer control > 0.1 \<and> current_speed > 15
                                     then control\<lparr>throttle := min (throttle control) 0.3\<rparr>
                                     else control)
                     in (Inr control',
                         s\<lparr>controller_dict := dict_replace (controller_dict s) data_id controller',
                           last_steer_dict := (last_steer_dict s)(data_id \<mapsto> steer control')\<rparr>))))"

text \<open>
  \<open>_forward_eval\<close> and \<open>_forward_collect\<close>: the batch is a dictionary from ids to observations,
  here the list of its items in iteration order; \<open>us i\<close> is the random sample drawn while
  id \<open>i\<close> is served. \<open>to_ndarray\<close> turns the values of the observations into arrays and
  leaves what they hold as it is. The result lists \<open>actions\<close>, each \<open>{'action': control}\<close>.
\<close>

record action_dict =
  action :: control

fun forward_loop ::
  "'c extern \<Rightarrow> (int \<times> obs) list \<Rightarrow> (int \<Rightarrow> real) \<Rightarrow> (int \<times> action_dict) list \<Rightarrow> 'c AutoPolicy
     \<Rightarrow> (error + (int \<times> action_dict) list) \<times> 'c AutoPolicy" where
  "forward_loop api [] us actions s = (Inr actions, s)"
| "forward_loop api ((i, ob) # data) us actions s =
     (case forward api i ob (us i) s of
        (Inl e, s') \<Rightarrow> (Inl e, s')
      | (Inr act, s') \<Rightarrow> forward_loop api data us (actions @ [(i, \<lparr>action = act\<rparr>)]) s')"

definition forward_eval ::
  "'c extern \<Rightarrow> (int \<times> obs) list \<Rightarrow> (int \<Rightarrow> real) \<Rightarrow> 'c AutoPolicy
     \<Rightarrow> (error + (int \<times> action_dict) list) \<times> 'c AutoPolicy" where
  "forward_eval api data us s = forward_loop api data us [] s"

definition forward_collect ::
  "'c extern \<Rightarrow> (int \<times> obs) list \<Rightarrow> (int \<Rightarrow> real) \<Rightarrow> 'c AutoPolicy
     \<Rightarrow> (error + (int \<times> action_dict) list) \<times> 'c AutoPolicy" where
  "forward_collect api data us s = forward_loop api data us [] s"

text \<open>
  \<open>for id in self._controller_dict: self._reset(id, noise)\<close>. The iterator of a dictionary
  holds the number of entries it started with (\<open>di_used\<close>), the slot to look at next and the
  number of keys it may still hand out. Each step it raises if the dictionary has another
  size than at the start, finds the next live slot, stops if there is none, raises if it has
  handed out all its keys already, and hands out the key it found otherwise.
\<close>

fun reset_iter ::
  "'c extern \<Rightarrow> bool \<Rightarrow> nat \<Rightarrow> nat \<Rightarrow> nat \<Rightarrow> 'c AutoPolicy \<Rightarrow> (error + unit) \<times> 'c AutoPolicy" where
  "reset_iter api noise di_used di_pos 0 s =
     (if di_used \<noteq> ma_used (controller_dict s)
      then (Inl (RuntimeError ''dictionary changed size during iteration''), s)
      else case next_entry (controller_dict s) di_pos of
             None \<Rightarrow> (Inr (), s)
           | Some (i, key, v) \<Rightarrow>
               (Inl (RuntimeError ''dictionary keys changed during iteration''), s))"
| "reset_iter api noise di_used di_pos (Suc len) s =
     (if di_used \<noteq> ma_used (controller_dict s)
      then (Inl (RuntimeError ''dictionary changed size during iteration''), s)
      else case next_entry (controller_dict s) di_pos of
             None \<Rightarrow> (Inr (), s)
           | Some (i, key, v) \<Rightarrow> reset_iter api noise di_used (Suc i) len (reset api key noise s))"

definition reset_ids ::
  "'c extern \<Rightarrow> int list option \<Rightarrow> bool \<Rightarrow> 'c AutoPolicy \<Rightarrow> (error + unit) \<times> 'c AutoPolicy" where
  "reset_ids api data_id noise s =
     (case data_id of
        Some ids \<Rightarrow> (Inr (), fold (\<lambda>i. reset api i noise) ids s)
      | None \<Rightarrow> reset_iter api noise (ma_used (controller_dict s)) 0
                  (ma_used (controller_dict s)) s)"

definition reset_eval ::
  "'c extern \<Rightarrow> int list option \<Rightarrow> 'c AutoPolicy \<Rightarrow> (error + unit) \<times> 'c AutoPolicy" where
  "reset_eval api data_id s = reset_ids api data_id False s"

definition reset_collect ::
  "'c extern \<Rightarrow> int list option \<Rightarrow> 'c AutoPolicy \<Rightarrow> (error + unit) \<times> 'c AutoPolicy" where
  "reset_collect api data_id s = reset_ids api data_id (cfg_noise (cfg s)) s"

subsection \<open>The history of a policy object\<close>

text \<open>
  The calls made on a policy object so far, the latest first: an initialisation, a reset of
  an id, or a forward step for an id with its observation and what it returned.
\<close>

datatype log_entry =
  LogInit
| LogReset int
| LogForward int obs "error + control"

text \<open>
  The four emergency conditions, as the specification lists them.
\<close>

definition emergency :: "bool \<Rightarrow> obs \<Rightarrow> bool" where
  "emergency ignore_light ob =
     (command ob = - 1
      \<or> (agent_state ob = 2 \<or> agent_state ob = 3)
      \<or> (\<not> ignore_light \<and> agent_state ob = 4)
      \<or> (\<not> ignore_light \<and> tl_state ob = 0 \<and> tl_dis ob < 10))"

text \<open>
  The specification's reading of the last-steer cache: the steer of the latest non-emergency
  forward step of the id, and 0 if there is none since the id was last reset.
\<close>

fun last_recorded_steer :: "bool \<Rightarrow> int \<Rightarrow> log_entry list \<Rightarrow> real" where
  "last_recorded_steer ign i [] = 0"
| "last_recorded_steer ign i (LogInit # hist) = 0"
| "last_recorded_steer ign i (LogReset j # hist) =
     (if j = i then 0 else last_recorded_steer ign i hist)"
| "last_recorded_steer ign i (LogForward j ob (Inl e) # hist) = last_recorded_steer ign i hist"
| "last_recorded_steer ign i (LogForward j ob (Inr ctl) # hist) =
     (if j = i \<and> \<not> emergency ign ob then steer ctl else last_recorded_steer ign i hist)"

text \<open>
  The states a policy object built from configuration \<open>c\<close> can be in, with the history that
  led there. The public resets and forwards are sequences of \<open>_reset\<close> and \<open>_forward\<close> calls.
\<close>

inductive reachable :: "'c extern \<Rightarrow> config \<Rightarrow> 'c AutoPolicy \<Rightarrow> log_entry list \<Rightarrow> bool"
  for api :: "'c extern" and c :: config where
  reachable_new: "reachable api c (AutoPolicy_new c) []"
| reachable_init: "reachable api c s hist \<Longrightarrow> reachable api c (init s) (LogInit # hist)"
| reachable_reset:
    "reachable api c s hist \<Longrightarrow> reachable api c (reset api i noise s) (LogReset i # hist)"
| reachable_forward:
    "reachable api c s hist \<Longrightarrow> forward api i ob u s = (r, s')
       \<Longrightarrow> reachable api c s' (LogForward i ob r # hist)"

text \<open>The gain set \<open>_reset\<close> is to use, by the specification: the configured one, else a preset.\<close>

definition resolve_gains :: "gains option \<Rightarrow> real \<Rightarrow> gains \<Rightarrow> gains \<Rightarrow> gains" where
  "resolve_gains configured tspeed highway city =
     (case configured of Some g \<Rightarrow> g | None \<Rightarrow> if tspeed > 50 then highway else city)"

text \<open>
  The controller a reset is to build, by the specification: a new controller with the
  resolved gain sets and the configured limits, wrapped with uniform steer noise in the
  range from -0.3 to 0.3 when noise is asked for.
\<close>

definition fresh_controller :: "'c extern \<Rightarrow> config \<Rightarrow> bool \<Rightarrow> 'c controller" where
  "fresh_controller api c noise =
     (let pid = VehiclePIDController api
                  (resolve_gains (cfg_lateral_dict c) (cfg_target_speed c)
                     DEFAULT_LAT_HW_DICT DEFAULT_LAT_CITY_DICT)
                  (resolve_gains (cfg_longitudinal_dict c) (cfg_target_speed c)
                     DEFAULT_LONG_HW_DICT DEFAULT_LONG_CITY_DICT)
                  (cfg_max_throttle c) (cfg_max_brake c) (cfg_max_steer c)
      in if noise then SteerNoiseWrapper pid ''uniform'' (- 0.3) 0.3 else PID pid)"

text \<open>What holds of every reachable state.\<close>

definition keys_distinct :: "'v pydict \<Rightarrow> bool" where
  "keys_distinct d = distinct (dict_keys d)"

definition gains_inv :: "gains option \<Rightarrow> gains option \<Rightarrow> real \<Rightarrow> gains \<Rightarrow> gains \<Rightarrow> bool" where
  "gains_inv current configured tspeed highway city =
     (current = configured \<or> current = Some (resolve_gains configured tspeed highway city))"

definition policy_inv :: "config \<Rightarrow> 'c AutoPolicy \<Rightarrow> log_entry list \<Rightarrow> bool" where
  "policy_inv c s hist =
     (cfg s = c
      \<and> target_speed s = cfg_target_speed c
      \<and> max_brake s = cfg_max_brake c
      \<and> max_throttle s = cfg_max_throttle c
      \<and> max_steer s = cfg_max_steer c
      \<and> ignore_traffic_light s = cfg_ignore_light c
      \<and> gains_inv (lateral_dict s) (cfg_lateral_dict c) (cfg_target_speed c)
            DEFAULT_LAT_HW_DICT DEFAULT_LAT_CITY_DICT
      \<and> gains_inv (longitudinal_dict s) (cfg_longitudinal_dict c) (cfg_target_speed c)
            DEFAULT_LONG_HW_DICT DEFAULT_LONG_CITY_DICT
      \<and> keys_distinct (controller_dict s)
      \<and> (\<forall>i. dict_contains (controller_dict s) i \<longrightarrow>
               last_steer_dict s i = Some (last_recorded_steer (cfg_ignore_light c) i hist)))"

subsection \<open>A stand-in controller to run the policy on concrete inputs\<close>

text \<open>
  A small proportional-integral controller with the interface of \<open>VehiclePIDController\<close>:
  it steers towards the target's first coordinate and holds the target speed, within the
  limits it was built with.
\<close>

record simple_pid =
  args_lateral :: gains
  args_longitudinal :: gains
  pid_max_throttle :: real
  pid_max_brake :: real
  pid_max_steering :: real
  error_sum :: real

definition simple_pid_new :: "gains \<Rightarrow> gains \<Rightarrow> real \<Rightarrow> real \<Rightarrow> real \<Rightarrow> simple_pid" where
  "simple_pid_new lat lon mt mb ms =
     \<lparr>args_lateral = lat, args_longitudinal = lon, pid_max_throttle = mt, pid_max_brake = mb,
      pid_max_steering = ms, error_sum = 0\<rparr>"

definition simple_pid_forward ::
  "simple_pid \<Rightarrow> real \<Rightarrow> vec3 \<Rightarrow> vec3 \<Rightarrow> real \<Rightarrow> vec3 \<Rightarrow> control \<times> simple_pid" where
  "simple_pid_forward p v loc ori tv tloc =
     (let e = tv - v;
          acc = error_sum p + e * dt (args_longitudinal p);
          a = K_P (args_longitudinal p) * e + K_I (args_longitudinal p) * acc;
          st = K_P (args_lateral p) * (fst tloc - fst loc)
      in (\<lparr>steer = max (- pid_max_steering p) (min (pid_max_steering p) st),
           throttle = (if a \<ge> 0 then min a (pid_max_throttle p) else 0),
           brake = (if a \<ge> 0 then 0 else min (- a) (pid_max_brake p))\<rparr>,
          p\<lparr>error_sum := acc\<rparr>))"

text \<open>The table sizes of CPython 3.8: the least power of two from 8 on that holds \<open>3 * n\<close>.\<close>

function keysize :: "nat \<Rightarrow> nat \<Rightarrow> nat" where
  "keysize newsize minsize =
     (if newsize < minsize \<and> 0 < newsize then keysize (2 * newsize) minsize else newsize)"
  by pat_completeness auto
termination
  by (relation "measure (\<lambda>(newsize, minsize). minsize - newsize)") auto

definition cpython_growth :: "nat \<Rightarrow> nat" where
  "cpython_growth n = (2 * keysize 8 (3 * n)) div 3"

definition simple_extern :: "simple_pid extern" where
  "simple_extern =
     \<lparr>VehiclePIDController = simple_pid_new, pid_forward = simple_pid_forward,
      dict_growth = cpython_growth\<rparr>"

text \<open>Random samples that are all 0.\<close>

definition no_noise :: "int \<Rightarrow> real" where
  "no_noise i = 0"

text \<open>Observations: a clear road, and a red light 5 ahead.\<close>

definition obs_clear :: obs where
  "obs_clear =
     \<lparr>command = 4, agent_state = 1, tl_state = 3, tl_dis = 200, speed = 10,
      location = (0, 0, 0), orientation = (1, 0, 0), target = (0, 5, 0), speed_limit = 30\<rparr>"

definition obs_red :: obs where
  "obs_red = obs_clear\<lparr>tl_state := 0, tl_dis := 5\<rparr>"

text \<open>A fast left turn: the target lies at \<open>-0.5\<close>, the car drives at speed 20.\<close>

definition obs_left :: obs where
  "obs_left = obs_clear\<lparr>speed := 20, location := (0.5, 0, 0), target := (0, 5, 0)\<rparr>"

subsection \<open>Abbreviations for the statements below\<close>

text \<open>The entry \<open>_reset\<close> stores, and the controller call of a normal tracking step.\<close>

definition new_entry :: "'c extern \<Rightarrow> bool \<Rightarrow> 'c AutoPolicy \<Rightarrow> 'c controller" where
  "new_entry api noise s =
     (let c = VehiclePIDController api
                (resolve_gains (lateral_dict s) (target_speed s) DEFAULT_LAT_HW_DICT DEFAULT_LAT_CITY_DICT)
                (resolve_gains (longitudinal_dict s) (target_speed s) DEFAULT_LONG_HW_DICT DEFAULT_LONG_CITY_DICT)
                (max_throttle s) (max_brake s) (max_steer s)
      in if noise then SteerNoiseWrapper c ''uniform'' (- 0.3) 0.3 else PID c)"

definition tracking_step :: "'c extern \<Rightarrow> 'c controller \<Rightarrow> obs \<Rightarrow> real \<Rightarrow> real \<Rightarrow> control \<times> 'c controller" where
  "tracking_step api c ob tspeed u =
     controller_forward api c (speed ob) (location ob) (orientation ob)
       (min tspeed (speed_limit ob)) (target ob) u"

section \<open>Proofs\<close>

subsection \<open>The dictionary\<close>

lemma live_map_Some: "live (map Some xs) = xs"
  by (induction xs) simp_all

lemma live_append: "live (xs @ ys) = live xs @ live ys"
  by (induction xs rule: live.induct) simp_all

lemma live_pop:
  "live (map (\<lambda>e. case e of None \<Rightarrow> None
                    | Some (k', v) \<Rightarrow> if k' = k then None else Some (k', v)) es)
     = filter (\<lambda>(k', v). k' \<noteq> k) (live es)"
  by (induction es rule: live.induct) (auto split: prod.splits)

lemma live_replace:
  "live (map (\<lambda>e. case e of None \<Rightarrow> None
                    | Some (k', v') \<Rightarrow> if k' = k then Some (k', v) else Some (k', v')) es)
     = map (\<lambda>(k', v'). if k' = k then (k', v) else (k', v')) (live es)"
  by (induction es rule: live.induct) (auto split: prod.splits)

lemma dict_keys_pop: "dict_keys (dict_pop d k) = filter (\<lambda>k'. k' \<noteq> k) (dict_keys d)"
  by (simp add: dict_keys_def dict_pop_def live_pop filter_map comp_def case_prod_unfold)

lemma dict_keys_replace: "dict_keys (dict_replace d k v) = dict_keys d"
  by (simp add: dict_keys_def dict_replace_def live_replace comp_def case_prod_unfold)

lemma dict_keys_resize: "dict_keys (dict_resize g d) = dict_keys d"
  by (simp add: dict_keys_def dict_resize_def live_map_Some)

lemma dict_contains_keys: "dict_contains d k \<longleftrightarrow> k \<in> set (dict_keys d)"
  by (simp add: dict_contains_def dict_getitem_def dict_keys_def map_of_eq_None_iff)

lemma dict_keys_setitem:
  "dict_keys (dict_setitem g d k v) = (if k \<in> set (dict_keys d) then dict_keys d else dict_keys d @ [k])"
  using dict_keys_resize [of g d]
  by (simp add: dict_setitem_def dict_contains_keys dict_keys_replace Let_def)
     (simp add: dict_keys_def live_append)

lemma getitem_pop:
  "dict_getitem (dict_pop d k) k' = (if k' = k then None else dict_getitem d k')"
proof -
  have "map_of (filter (\<lambda>(a, v). a \<noteq> k) xs) k' = (if k' = k then None else map_of xs k')"
    for xs :: "(int \<times> 'a) list"
    by (induction xs) auto
  then show ?thesis
    by (simp add: dict_getitem_def dict_pop_def live_pop)
qed

lemma getitem_replace:
  "dict_getitem (dict_replace d k v) k' =
     (if k' = k \<and> dict_contains d k then Some v else dict_getitem d k')"
proof -
  have "map_of (map (\<lambda>(a, w). if a = k then (a, v) else (a, w)) xs) k'
          = (if k' = k \<and> map_of xs k \<noteq> None then Some v else map_of xs k')"
    for xs :: "(int \<times> 'a) list"
    by (induction xs) auto
  then show ?thesis
    by (simp add: dict_getitem_def dict_replace_def dict_contains_def live_replace)
qed

lemma getitem_setitem:
  "dict_getitem (dict_setitem g d k v) k' = (if k' = k then Some v else dict_getitem d k')"
proof (cases "dict_contains d k")
  case True
  then show ?thesis by (simp add: dict_setitem_def getitem_replace)
next
  case False
  then have none: "map_of (live (dk_entries d)) k = None"
    by (simp add: dict_contains_def dict_getitem_def)
  from none False show ?thesis
    by (auto simp: dict_setitem_def dict_getitem_def live_append Let_def dict_resize_def
          live_map_Some map_add_def split: option.splits)
qed

subsection \<open>Reset and forward, one id at a time\<close>

lemma reset_getitem:
  "dict_getitem (controller_dict (reset api i noise s)) j =
     (if j = i then Some (new_entry api noise s) else dict_getitem (controller_dict s) j)"
  by (simp add: reset_def Let_def getitem_setitem getitem_pop new_entry_def resolve_gains_def
        split: option.splits)

lemma filter_absent: "i \<notin> set xs \<Longrightarrow> filter (\<lambda>k. k \<noteq> i) xs = xs"
  by (induction xs) auto

lemma reset_keys:
  "dict_keys (controller_dict (reset api i noise s)) =
     filter (\<lambda>k. k \<noteq> i) (dict_keys (controller_dict s)) @ [i]"
  by (simp add: reset_def Let_def dict_keys_setitem dict_keys_pop dict_contains_keys
        filter_absent)

lemma reset_last_steer:
  "last_steer_dict (reset api i noise s) = (last_steer_dict s)(i \<mapsto> 0)"
  by (simp add: reset_def Let_def)

lemma reset_fields:
  "cfg (reset api i noise s) = cfg s"
  "target_speed (reset api i noise s) = target_speed s"
  "max_brake (reset api i noise s) = max_brake s"
  "max_throttle (reset api i noise s) = max_throttle s"
  "max_steer (reset api i noise s) = max_steer s"
  "ignore_traffic_light (reset api i noise s) = ignore_traffic_light s"
  "debug (reset api i noise s) = debug s"
  by (simp_all add: reset_def Let_def)

lemma reset_gains:
  "lateral_dict (reset api i noise s) =
     Some (resolve_gains (lateral_dict s) (target_speed s) DEFAULT_LAT_HW_DICT DEFAULT_LAT_CITY_DICT)"
  "longitudinal_dict (reset api i noise s) =
     Some (resolve_gains (longitudinal_dict s) (target_speed s) DEFAULT_LONG_HW_DICT DEFAULT_LONG_CITY_DICT)"
  by (simp_all add: reset_def Let_def resolve_gains_def split: option.splits)

lemma reset_keys_distinct:
  "keys_distinct (controller_dict s) \<Longrightarrow> keys_distinct (controller_dict (reset api i noise s))"
  by (simp add: keys_distinct_def reset_keys)

lemma forward_missing:
  "dict_getitem (controller_dict s) i = None \<Longrightarrow> forward api i ob u s = (Inl (KeyError i), s)"
  by (simp add: forward_def)

lemma forward_emergency:
  "dict_getitem (controller_dict s) i = Some c \<Longrightarrow> emergency (ignore_traffic_light s) ob
     \<Longrightarrow> forward api i ob u s = (emergency_stop i s, s)"
  by (auto simp: forward_def emergency_def)

lemma forward_tracking:
  "dict_getitem (controller_dict s) i = Some c \<Longrightarrow> \<not> emergency (ignore_traffic_light s) ob
     \<Longrightarrow> tracking_step api c ob (target_speed s) u = (ctl, c')
     \<Longrightarrow> forward api i ob u s =
           (Inr (if steer ctl > 0.1 \<and> speed ob > 15 then ctl\<lparr>throttle := min (throttle ctl) 0.3\<rparr> else ctl),
            s\<lparr>controller_dict := dict_replace (controller_dict s) i c',
              last_steer_dict := (last_steer_dict s)(i \<mapsto> steer ctl)\<rparr>)"
  by (auto simp: forward_def emergency_def tracking_step_def Let_def)

lemma forward_keys:
  "dict_keys (controller_dict (snd (forward api i ob u s))) = dict_keys (controller_dict s)"
  by (auto simp: forward_def Let_def dict_keys_replace split: option.splits prod.splits)

lemma forward_fields:
  "cfg (snd (forward api i ob u s)) = cfg s"
  "target_speed (snd (forward api i ob u s)) = target_speed s"
  "max_brake (snd (forward api i ob u s)) = max_brake s"
  "max_throttle (snd (forward api i ob u s)) = max_throttle s"
  "max_steer (snd (forward api i ob u s)) = max_steer s"
  "ignore_traffic_light (snd (forward api i ob u s)) = ignore_traffic_light s"
  "lateral_dict (snd (forward api i ob u s)) = lateral_dict s"
  "longitudinal_dict (snd (forward api i ob u s)) = longitudinal_dict s"
  "debug (snd (forward api i ob u s)) = debug s"
  by (auto simp: forward_def Let_def split: option.splits prod.splits)

subsection \<open>What every reachable state satisfies\<close>

lemma init_fields:
  "cfg (init s) = cfg s"
  "target_speed (init s) = cfg_target_speed (cfg s)"
  "max_brake (init s) = cfg_max_brake (cfg s)"
  "max_throttle (init s) = cfg_max_throttle (cfg s)"
  "max_steer (init s) = cfg_max_steer (cfg s)"
  "ignore_traffic_light (init s) = cfg_ignore_light (cfg s)"
  "lateral_dict (init s) = cfg_lateral_dict (cfg s)"
  "longitudinal_dict (init s) = cfg_longitudinal_dict (cfg s)"
  "controller_dict (init s) = dict_new"
  "last_steer_dict (init s) = Map.empty"
  by (simp_all add: init_def)

lemma dict_new_keys: "dict_keys dict_new = []"
  by (simp add: dict_keys_def dict_new_def)

lemma policy_inv_init: "cfg s = c \<Longrightarrow> policy_inv c (init s) hist"
  by (simp add: policy_inv_def init_fields gains_inv_def keys_distinct_def dict_new_keys
        dict_contains_keys)

lemma AutoPolicy_new_cfg: "cfg (AutoPolicy_new c) = c"
  by (simp add: AutoPolicy_new_def init_eval_def init_collect_def init_fields)

lemma policy_inv_new: "policy_inv c (AutoPolicy_new c) []"
  by (simp add: AutoPolicy_new_def init_eval_def init_collect_def policy_inv_init init_fields)

lemma resolve_gains_idem:
  "resolve_gains (Some (resolve_gains g t h c)) t h c = resolve_gains g t h c"
  by (simp add: resolve_gains_def)

lemma gains_inv_resolve:
  "gains_inv cur g t h c \<Longrightarrow> resolve_gains cur t h c = resolve_gains g t h c"
  by (auto simp: gains_inv_def resolve_gains_idem)

lemma policy_inv_reset:
  assumes "policy_inv c s hist"
  shows "policy_inv c (reset api i noise s) (LogReset i # hist)"
proof -
  from assms have lat: "gains_inv (lateral_dict s) (cfg_lateral_dict c) (cfg_target_speed c)
        DEFAULT_LAT_HW_DICT DEFAULT_LAT_CITY_DICT"
    and lon: "gains_inv (longitudinal_dict s) (cfg_longitudinal_dict c) (cfg_target_speed c)
        DEFAULT_LONG_HW_DICT DEFAULT_LONG_CITY_DICT"
    and ts: "target_speed s = cfg_target_speed c"
    by (simp_all add: policy_inv_def)
  have g1: "gains_inv (lateral_dict (reset api i noise s)) (cfg_lateral_dict c) (cfg_target_speed c)
        DEFAULT_LAT_HW_DICT DEFAULT_LAT_CITY_DICT"
    using gains_inv_resolve [OF lat] by (simp add: reset_gains ts gains_inv_def)
  have g2: "gains_inv (longitudinal_dict (reset api i noise s)) (cfg_longitudinal_dict c)
        (cfg_target_speed c) DEFAULT_LONG_HW_DICT DEFAULT_LONG_CITY_DICT"
    using gains_inv_resolve [OF lon] by (simp add: reset_gains ts gains_inv_def)
  have cache: "last_steer_dict (reset api i noise s) j =
                 Some (last_recorded_steer (cfg_ignore_light c) j (LogReset i # hist))"
    if "dict_contains (controller_dict (reset api i noise s)) j" for j
  proof (cases "j = i")
    case True
    then show ?thesis by (simp add: reset_last_steer)
  next
    case False
    with that have "dict_contains (controller_dict s) j"
      by (simp add: dict_contains_def reset_getitem)
    with assms False show ?thesis
      by (simp add: policy_inv_def reset_last_steer)
  qed
  from assms g1 g2 cache show ?thesis
    by (simp add: policy_inv_def reset_fields reset_keys_distinct)
qed

lemma policy_inv_forward:
  assumes inv: "policy_inv c s hist" and fw: "forward api i ob u s = (r, s')"
  shows "policy_inv c s' (LogForward i ob r # hist)"
proof -
  have s': "s' = snd (forward api i ob u s)" using fw by simp
  from inv have ign: "ignore_traffic_light s = cfg_ignore_light c"
    by (simp add: policy_inv_def)
  have keys: "dict_keys (controller_dict s') = dict_keys (controller_dict s)"
    by (simp add: s' forward_keys)
  have cache: "last_steer_dict s' j = Some (last_recorded_steer (cfg_ignore_light c) j (LogForward i ob r # hist))"
    if j: "dict_contains (controller_dict s) j" for j
  proof -
    from inv j have old: "last_steer_dict s j = Some (last_recorded_steer (cfg_ignore_light c) j hist)"
      by (simp add: policy_inv_def)
    show ?thesis
    proof (cases "dict_getitem (controller_dict s) i")
      case None
      with fw old show ?thesis by (auto simp: forward_missing)
    next
      case (Some ctrl)
      show ?thesis
      proof (cases "emergency (ignore_traffic_light s) ob")
        case True
        with Some fw have same: "s' = s"
          by (simp add: forward_emergency)
        from True ign have "emergency (cfg_ignore_light c) ob" by simp
        with old same show ?thesis
          by (cases r) simp_all
      next
        case False
        obtain ctl c' where step: "tracking_step api ctrl ob (target_speed s) u = (ctl, c')"
          by (cases "tracking_step api ctrl ob (target_speed s) u") blast
        from forward_tracking [OF Some False step] fw old False ign show ?thesis
          by (auto split: if_splits)
      qed
    qed
  qed
  from inv cache show ?thesis
    by (simp add: policy_inv_def s' forward_fields keys_distinct_def forward_keys dict_contains_keys)
qed

lemma reachable_inv: "reachable api c s hist \<Longrightarrow> policy_inv c s hist"
proof (induction rule: reachable.induct)
  case reachable_new
  show ?case by (rule policy_inv_new)
next
  case (reachable_init s hist)
  then have "cfg s = c" by (simp add: policy_inv_def)
  then show ?case by (rule policy_inv_init)
next
  case (reachable_reset s hist i noise)
  then show ?case by (simp add: policy_inv_reset)
next
  case (reachable_forward s hist i ob u r s')
  then show ?case by (simp add: policy_inv_forward)
qed

subsection \<open>Emergency stop\<close>

lemma emergency_stop_cached:
  "last_steer_dict s i = Some st \<Longrightarrow>
     emergency_stop i s = Inr \<lparr>steer = st, throttle = 0, brake = 1\<rparr>"
  by (simp add: emergency_stop_def)

text \<open>
  C1. In a reachable state, for an id that has a controller and an observation under which
  one of the four emergency conditions holds, \<open>_forward\<close> returns throttle 0, brake 1 and
  the steer of the id's latest non-emergency step (0 if there is none since its last reset),
  and leaves the policy, its last-steer cache included, as it was.
\<close>

theorem emergency_returns_full_brake_and_last_steer:
  assumes "reachable api c s hist"
    and "dict_getitem (controller_dict s) i = Some ctrl"
    and "emergency (cfg_ignore_light c) ob"
  shows "forward api i ob u s =
           (Inr \<lparr>steer = last_recorded_steer (cfg_ignore_light c) i hist,
                 throttle = 0.0, brake = 1.0\<rparr>, s)
         \<and> last_steer_dict (snd (forward api i ob u s)) i = last_steer_dict s i"
proof -
  from assms(1) have inv: "policy_inv c s hist" by (rule reachable_inv)
  from assms(2) have "dict_contains (controller_dict s) i"
    by (simp add: dict_contains_def)
  with inv have cache: "last_steer_dict s i = Some (last_recorded_steer (cfg_ignore_light c) i hist)"
    by (simp add: policy_inv_def)
  from inv have "ignore_traffic_light s = cfg_ignore_light c"
    by (simp add: policy_inv_def)
  with assms(3) have "emergency (ignore_traffic_light s) ob" by simp
  from forward_emergency [OF assms(2) this] emergency_stop_cached [OF cache]
  show ?thesis by simp
qed

lemma simple_first_step:
  "forward simple_extern 0 obs_left 0 (reset simple_extern 0 False (AutoPolicy_new default_config))
     = (Inr \<lparr>steer = - 0.5, throttle = 0.75, brake = 0\<rparr>,
        (reset simple_extern 0 False (AutoPolicy_new default_config))
          \<lparr>controller_dict := dict_replace
              (controller_dict (reset simple_extern 0 False (AutoPolicy_new default_config))) 0
              (PID ((simple_pid_new DEFAULT_LATERAL_DICT DEFAULT_LONGITUDINAL_DICT 0.75 0.3 0.8)
                     \<lparr>error_sum := 0.5\<rparr>)),
           last_steer_dict := (last_steer_dict (reset simple_extern 0 False (AutoPolicy_new default_config)))
              (0 \<mapsto> - 0.5)\<rparr>)"
proof -
  let ?s = "reset simple_extern 0 False (AutoPolicy_new default_config) :: simple_pid AutoPolicy"
  let ?c = "PID (simple_pid_new DEFAULT_LATERAL_DICT DEFAULT_LONGITUDINAL_DICT 0.75 0.3 0.8)"
  have inv: "policy_inv default_config ?s [LogReset 0]"
    by (intro policy_inv_reset policy_inv_new)
  have get: "dict_getitem (controller_dict ?s) 0 = Some ?c"
    by (simp add: reset_getitem new_entry_def AutoPolicy_new_def init_eval_def init_collect_def
          init_fields default_config_def resolve_gains_def simple_extern_def)
  from inv have ign: "ignore_traffic_light ?s = False" and ts: "target_speed ?s = 25"
    by (simp_all add: policy_inv_def default_config_def)
  have ne: "\<not> emergency (ignore_traffic_light ?s) obs_left"
    by (simp add: ign emergency_def obs_left_def obs_clear_def)
  have "tracking_step simple_extern ?c obs_left 25 0
                = (\<lparr>steer = - 0.5, throttle = 0.75, brake = 0\<rparr>,
                   PID ((simple_pid_new DEFAULT_LATERAL_DICT DEFAULT_LONGITUDINAL_DICT 0.75 0.3 0.8)
                     \<lparr>error_sum := 0.5\<rparr>))"
    by (simp add: tracking_step_def simple_extern_def simple_pid_forward_def simple_pid_new_def
          obs_left_def obs_clear_def DEFAULT_LATERAL_DICT_def DEFAULT_LONGITUDINAL_DICT_def Let_def)
  then have step: "tracking_step simple_extern ?c obs_left (target_speed ?s) 0
                = (\<lparr>steer = - 0.5, throttle = 0.75, brake = 0\<rparr>,
                   PID ((simple_pid_new DEFAULT_LATERAL_DICT DEFAULT_LONGITUDINAL_DICT 0.75 0.3 0.8)
                     \<lparr>error_sum := 0.5\<rparr>))"
    unfolding ts .
  from forward_tracking [OF get ne step] show ?thesis
    by (simp add: obs_left_def obs_clear_def)
qed

theorem emergency_returns_full_brake_and_last_steer_witness:
  "reachable simple_extern default_config
     (snd (forward simple_extern 0 obs_left 0
        (reset simple_extern 0 False (AutoPolicy_new default_config))))
     [LogForward 0 obs_left (Inr \<lparr>steer = - 0.5, throttle = 0.75, brake = 0\<rparr>), LogReset 0]
   \<and> emergency (cfg_ignore_light default_config) obs_red
   \<and> fst (forward simple_extern 0 obs_red 0
        (snd (forward simple_extern 0 obs_left 0
           (reset simple_extern 0 False (AutoPolicy_new default_config)))))
      = Inr \<lparr>steer = - 0.5, throttle = 0, brake = 1\<rparr>"
proof -
  let ?s1 = "reset simple_extern 0 False (AutoPolicy_new default_config) :: simple_pid AutoPolicy"
  let ?s2 = "snd (forward simple_extern 0 obs_left 0 ?s1)"
  let ?hist = "[LogForward 0 obs_left (Inr \<lparr>steer = - 0.5, throttle = 0.75, brake = 0\<rparr>), LogReset 0]"
  have "reachable simple_extern default_config ?s1 [LogReset 0]"
    by (intro reachable.intros)
  then have reach: "reachable simple_extern default_config ?s2 ?hist"
    by (rule reachable_forward [where u = 0]) (simp add: simple_first_step)
  have get: "dict_getitem (controller_dict ?s2) 0
               = Some (PID ((simple_pid_new DEFAULT_LATERAL_DICT DEFAULT_LONGITUDINAL_DICT 0.75 0.3 0.8)
                     \<lparr>error_sum := 0.5\<rparr>))"
    by (simp add: simple_first_step getitem_replace dict_contains_def reset_getitem)
  have em: "emergency (cfg_ignore_light default_config) obs_red"
    by (simp add: emergency_def obs_red_def obs_clear_def default_config_def)
  have ne: "\<not> emergency (cfg_ignore_light default_config) obs_left"
    by (simp add: emergency_def obs_left_def obs_clear_def default_config_def)
  from emergency_returns_full_brake_and_last_steer [OF reach get em, of 0] reach em ne
  show ?thesis by simp
qed

subsection \<open>The throttle cap and the reset of all ids, run on concrete inputs\<close>

text \<open>
  C2. The throttle cap misses a sharp turn with negative steer. One tracked id, a clear
  road, speed 20 and a speed limit of 30; the stand-in controller answers with steer -0.5
  and throttle 0.75. The step is a normal tracking step, the steer's magnitude exceeds 0.1
  and the speed exceeds 15, yet \<open>_forward\<close> returns the throttle 0.75 unchanged.
\<close>

theorem curve_cap_misses_negative_steer:
  "\<not> emergency (cfg_ignore_light default_config) obs_left
   \<and> fst (pid_forward simple_extern
            (simple_pid_new DEFAULT_LATERAL_DICT DEFAULT_LONGITUDINAL_DICT 0.75 0.3 0.8)
            (speed obs_left) (location obs_left) (orientation obs_left)
            (min 25 (speed_limit obs_left)) (target obs_left))
       = \<lparr>steer = - 0.5, throttle = 0.75, brake = 0\<rparr>
   \<and> \<bar>- 0.5 :: real\<bar> > 0.1 \<and> speed obs_left > 15
   \<and> fst (forward simple_extern 0 obs_left 0
            (reset simple_extern 0 False (AutoPolicy_new default_config)))
       = Inr \<lparr>steer = - 0.5, throttle = 0.75, brake = 0\<rparr>
   \<and> \<not> (0.75 :: real) \<le> 0.3"
proof -
  have "\<not> emergency (cfg_ignore_light default_config) obs_left"
    by (simp add: emergency_def obs_left_def obs_clear_def default_config_def)
  moreover have "fst (pid_forward simple_extern
            (simple_pid_new DEFAULT_LATERAL_DICT DEFAULT_LONGITUDINAL_DICT 0.75 0.3 0.8)
            (speed obs_left) (location obs_left) (orientation obs_left)
            (min 25 (speed_limit obs_left)) (target obs_left))
       = \<lparr>steer = - 0.5, throttle = 0.75, brake = 0\<rparr>"
    by (simp add: simple_extern_def simple_pid_forward_def simple_pid_new_def
          obs_left_def obs_clear_def DEFAULT_LATERAL_DICT_def DEFAULT_LONGITUDINAL_DICT_def Let_def)
  moreover have "speed obs_left > 15"
    by (simp add: obs_left_def obs_clear_def)
  ultimately show ?thesis
    by (simp add: simple_first_step)
qed

lemma dict_after_first_reset:
  "controller_dict (reset api 0 noise (AutoPolicy_new c)) =
     \<lparr>dk_entries = [Some (0, new_entry api noise (AutoPolicy_new c))], dk_usable = 4\<rparr>"
  by (simp add: reset_def Let_def new_entry_def resolve_gains_def AutoPolicy_new_def
        init_eval_def init_collect_def init_def dict_new_def dict_contains_def dict_getitem_def
        dict_setitem_def split: option.splits)

lemma reset_iter_single:
  assumes "controller_dict s = \<lparr>dk_entries = [Some (0, e)], dk_usable = 4\<rparr>"
  shows "fst (reset_iter api noise 1 0 1 s)
           = Inl (RuntimeError ''dictionary keys changed during iteration'')"
    and "dk_entries (controller_dict (snd (reset_iter api noise 1 0 1 s)))
           = [None, Some (0, new_entry api noise s)]"
proof -
  have d: "controller_dict (reset api 0 noise s)
             = \<lparr>dk_entries = [None, Some (0, new_entry api noise s)], dk_usable = 3\<rparr>"
    by (simp add: reset_def Let_def assms new_entry_def resolve_gains_def dict_contains_def
          dict_getitem_def dict_pop_def dict_setitem_def split: option.splits)
  have one: "reset_iter api noise 1 0 (Suc 0) s = reset_iter api noise 1 (Suc 0) 0 (reset api 0 noise s)"
    by (simp add: assms ma_used_def next_entry_def)
  show "fst (reset_iter api noise 1 0 1 s)
           = Inl (RuntimeError ''dictionary keys changed during iteration'')"
    using one by (simp add: d ma_used_def next_entry_def)
  show "dk_entries (controller_dict (snd (reset_iter api noise 1 0 1 s)))
           = [None, Some (0, new_entry api noise s)]"
    using one by (simp add: d ma_used_def next_entry_def)
qed

lemma reset_ids_single:
  assumes "controller_dict s = \<lparr>dk_entries = [Some (0, e)], dk_usable = 4\<rparr>"
  shows "fst (reset_ids api None noise s)
           = Inl (RuntimeError ''dictionary keys changed during iteration'')"
proof -
  have "ma_used (controller_dict s) = 1"
    by (simp add: assms ma_used_def)
  with reset_iter_single(1) [OF assms] show ?thesis
    by (simp add: reset_ids_def)
qed

text \<open>
  C6. A reset of all tracked ids fails when one id is tracked. A policy is built and id 0 is
  reset; then \<open>_reset_eval()\<close> and \<open>_reset_collect()\<close> are called without ids. The loop resets
  id 0, which moves the key to a new slot of the dictionary under iteration; the iterator
  finds that slot after it has handed out its one key, and the call ends in a RuntimeError
  instead of returning.
\<close>

theorem reset_all_raises_with_one_id:
  "fst (reset_eval simple_extern None
          (reset simple_extern 0 False (AutoPolicy_new default_config)))
     = Inl (RuntimeError ''dictionary keys changed during iteration'')
   \<and> fst (reset_collect simple_extern None
          (reset simple_extern 0 False (AutoPolicy_new default_config)))
     = Inl (RuntimeError ''dictionary keys changed during iteration'')
   \<and> dict_keys (controller_dict (reset simple_extern 0 False (AutoPolicy_new default_config)))
     = [0]"
proof -
  let ?s = "reset simple_extern 0 False (AutoPolicy_new default_config)"
  have "fst (reset_ids simple_extern None noise ?s)
          = Inl (RuntimeError ''dictionary keys changed during iteration'')" for noise
    by (rule reset_ids_single) (rule dict_after_first_reset)
  then show ?thesis
    by (simp add: reset_eval_def reset_collect_def dict_keys_def dict_after_first_reset)
qed

subsection \<open>The two modes\<close>

lemma new_entry_reset: "new_entry api noise (reset api i n s) = new_entry api noise s"
  by (simp add: new_entry_def reset_fields reset_gains resolve_gains_idem)

lemma fold_reset_getitem:
  "dict_getitem (controller_dict (fold (\<lambda>i. reset api i noise) ids s)) j =
     (if j \<in> set ids then Some (new_entry api noise s) else dict_getitem (controller_dict s) j)"
proof (induction ids arbitrary: s)
  case Nil
  show ?case by simp
next
  case (Cons i ids)
  show ?case
    by (simp add: Cons.IH new_entry_reset reset_getitem)
qed

lemma fold_reset_last_steer:
  "last_steer_dict (fold (\<lambda>i. reset api i noise) ids s) j =
     (if j \<in> set ids then Some 0 else last_steer_dict s j)"
proof (induction ids arbitrary: s)
  case Nil
  show ?case by simp
next
  case (Cons i ids)
  show ?case
    by (simp add: Cons.IH reset_last_steer)
qed

lemma AutoPolicy_new_fields:
  "target_speed (AutoPolicy_new c) = cfg_target_speed c"
  "max_brake (AutoPolicy_new c) = cfg_max_brake c"
  "max_throttle (AutoPolicy_new c) = cfg_max_throttle c"
  "max_steer (AutoPolicy_new c) = cfg_max_steer c"
  "ignore_traffic_light (AutoPolicy_new c) = cfg_ignore_light c"
  "lateral_dict (AutoPolicy_new c) = cfg_lateral_dict c"
  "longitudinal_dict (AutoPolicy_new c) = cfg_longitudinal_dict c"
  "controller_dict (AutoPolicy_new c) = dict_new"
  "last_steer_dict (AutoPolicy_new c) = Map.empty"
  by (simp_all add: AutoPolicy_new_def init_eval_def init_collect_def init_fields)

lemma dict_new_getitem: "dict_getitem dict_new k = None"
  by (simp add: dict_getitem_def dict_new_def)

lemma forward_loop_single_emergency:
  assumes "dict_getitem (controller_dict s) i = Some ctrl"
    and "last_steer_dict s i = Some st"
    and "emergency (ignore_traffic_light s) ob"
  shows "forward_loop api [(i, ob)] us [] s
           = (Inr [(i, \<lparr>action = \<lparr>steer = st, throttle = 0, brake = 1\<rparr>\<rparr>)], s)"
  using forward_emergency [OF assms(1,3)] emergency_stop_cached [OF assms(2)]
  by simp

text \<open>
  C3, as stated, fails: a reset through the collect-mode interface changes what the
  eval-mode interface works on. On a new policy eval-mode \<open>forward\<close> for id 0 raises KeyError;
  after a collect-mode reset of id 0 it finds a controller and answers.
\<close>

theorem collect_reset_changes_eval_state:
  "fst (forward_eval simple_extern [(0, obs_red)] no_noise (AutoPolicy_new default_config))
     = Inl (KeyError 0)
   \<and> fst (forward_eval simple_extern [(0, obs_red)] no_noise
          (snd (reset_collect simple_extern (Some [0]) (AutoPolicy_new default_config))))
     = Inr [(0, \<lparr>action = \<lparr>steer = 0, throttle = 0, brake = 1\<rparr>\<rparr>)]
   \<and> dict_getitem (controller_dict
          (snd (reset_collect simple_extern (Some [0]) (AutoPolicy_new default_config)))) 0
     \<noteq> dict_getitem (controller_dict (AutoPolicy_new default_config :: simple_pid AutoPolicy)) 0
   \<and> last_steer_dict
          (snd (reset_collect simple_extern (Some [0]) (AutoPolicy_new default_config))) 0
     \<noteq> last_steer_dict (AutoPolicy_new default_config :: simple_pid AutoPolicy) 0"
proof -
  let ?s0 = "AutoPolicy_new default_config :: simple_pid AutoPolicy"
  let ?s1 = "snd (reset_collect simple_extern (Some [0]) ?s0)"
  have none: "dict_getitem (controller_dict ?s0) 0 = None"
    by (simp add: AutoPolicy_new_fields dict_new_getitem)
  have steer0: "last_steer_dict ?s0 0 = None"
    by (simp add: AutoPolicy_new_fields)
  have s1: "?s1 = reset simple_extern 0 False ?s0"
    by (simp add: reset_collect_def reset_ids_def AutoPolicy_new_cfg default_config_def)
  have some: "dict_getitem (controller_dict ?s1) 0 = Some (new_entry simple_extern False ?s0)"
    unfolding s1 by (simp add: reset_getitem)
  have cache: "last_steer_dict ?s1 0 = Some 0"
    unfolding s1 by (simp add: reset_last_steer)
  have "ignore_traffic_light ?s1 = False"
    unfolding s1 by (simp add: reset_fields AutoPolicy_new_fields default_config_def)
  then have em: "emergency (ignore_traffic_light ?s1) obs_red"
    by (simp add: emergency_def obs_red_def obs_clear_def)
  have a: "fst (forward_eval simple_extern [(0, obs_red)] no_noise ?s0) = Inl (KeyError 0)"
    by (simp add: forward_eval_def forward_missing [OF none])
  have b: "fst (forward_eval simple_extern [(0, obs_red)] no_noise ?s1)
             = Inr [(0, \<lparr>action = \<lparr>steer = 0, throttle = 0, brake = 1\<rparr>\<rparr>)]"
    unfolding forward_eval_def
    by (simp only: forward_loop_single_emergency [OF some cache em] fst_conv)
  from a b none some steer0 cache show ?thesis by simp
qed

subsection \<open>One state for both modes\<close>

lemma forward_answers:
  assumes "dict_getitem (controller_dict s) i = Some ctrl" and "last_steer_dict s i = Some st"
  shows "\<exists>ctl s'. forward api i ob u s = (Inr ctl, s')"
proof (cases "emergency (ignore_traffic_light s) ob")
  case True
  from forward_emergency [OF assms(1) True] emergency_stop_cached [OF assms(2)]
  show ?thesis by simp
next
  case False
  obtain ctl c' where "tracking_step api ctrl ob (target_speed s) u = (ctl, c')"
    by (cases "tracking_step api ctrl ob (target_speed s) u") blast
  from forward_tracking [OF assms(1) False this] show ?thesis
    by blast
qed

lemma forward_loop_single_answers:
  assumes "dict_getitem (controller_dict s) i = Some ctrl" and "last_steer_dict s i = Some st"
  shows "\<exists>acts s'. forward_loop api [(i, ob)] us [] s = (Inr acts, s')"
proof -
  from forward_answers [OF assms] obtain ctl s' where "forward api i ob (us i) s = (Inr ctl, s')"
    by blast
  then show ?thesis by simp
qed

text \<open>
  C3, amended. The collect-mode and the eval-mode interface work on one controller mapping
  and one last-steer cache. A forward through either interface is the same operation on that
  state; a reset through either is the same operation too unless the noise flag is set; and
  a reset of an id through one interface gives the other interface's forward a controller
  and a cache entry for that id, so that it answers instead of raising KeyError.
\<close>

theorem modes_share_one_state:
  "forward_collect api data us s = forward_eval api data us s
   \<and> (\<not> cfg_noise (cfg s) \<longrightarrow> reset_collect api data_id s = reset_eval api data_id s)
   \<and> (i \<in> set ids \<longrightarrow>
        (\<exists>acts s'. forward_eval api [(i, ob)] us (snd (reset_collect api (Some ids) s))
                     = (Inr acts, s'))
        \<and> (\<exists>acts s'. forward_collect api [(i, ob)] us (snd (reset_eval api (Some ids) s))
                     = (Inr acts, s')))"
proof -
  have same_forward: "forward_collect api data us s = forward_eval api data us s"
    by (simp add: forward_collect_def forward_eval_def)
  have same_reset: "reset_collect api data_id s = reset_eval api data_id s"
    if "\<not> cfg_noise (cfg s)"
    using that by (simp add: reset_collect_def reset_eval_def)
  have seen: "\<exists>acts s'. forward_loop api [(i, ob)] us [] (fold (\<lambda>i. reset api i noise) ids s)
                 = (Inr acts, s')"
    if "i \<in> set ids" for noise
  proof (rule forward_loop_single_answers)
    from that show "dict_getitem (controller_dict (fold (\<lambda>i. reset api i noise) ids s)) i
                      = Some (new_entry api noise s)"
      by (simp add: fold_reset_getitem)
    from that show "last_steer_dict (fold (\<lambda>i. reset api i noise) ids s) i = Some 0"
      by (simp add: fold_reset_last_steer)
  qed
  from same_forward same_reset seen show ?thesis
    by (simp add: forward_collect_def forward_eval_def reset_collect_def reset_eval_def
          reset_ids_def)
qed

theorem modes_share_one_state_witness:
  "\<not> cfg_noise (cfg (AutoPolicy_new default_config :: simple_pid AutoPolicy))
   \<and> (0 :: int) \<in> set [0]
   \<and> reset_collect simple_extern (Some [0]) (AutoPolicy_new default_config)
       = reset_eval simple_extern (Some [0]) (AutoPolicy_new default_config)
   \<and> (\<exists>acts s'. forward_eval simple_extern [(0, obs_red)] no_noise
                    (snd (reset_collect simple_extern (Some [0]) (AutoPolicy_new default_config)))
                  = (Inr acts, s'))
   \<and> (\<exists>acts s'. forward_collect simple_extern [(0, obs_red)] no_noise
                    (snd (reset_eval simple_extern (Some [0]) (AutoPolicy_new default_config)))
                  = (Inr acts, s'))"
proof -
  have flag: "\<not> cfg_noise (cfg (AutoPolicy_new default_config :: simple_pid AutoPolicy))"
    by (simp add: AutoPolicy_new_cfg default_config_def)
  have mem: "(0 :: int) \<in> set [0]" by simp
  from modes_share_one_state [of simple_extern "[]" no_noise "AutoPolicy_new default_config"
      "Some [0]" 0 "[0]" obs_red] flag mem
  show ?thesis by blast
qed

subsection \<open>Normal tracking and the controller's state\<close>

text \<open>
  C4. In a reachable state, for an id that has a controller and an observation under which
  none of the emergency conditions holds, \<open>_forward\<close> calls the controller with the observed
  speed, location and orientation, the minimum of the configured target speed and the
  observed speed limit, and the target location. It returns the controller's command, the
  throttle capped at 0.3 when the cap's condition holds, leaves the controller as the call
  left it, and records the command's steer in the last-steer cache of the id.
\<close>

theorem tracking_step_calls_controller_and_records_steer:
  assumes "reachable api c s hist"
    and "dict_getitem (controller_dict s) i = Some ctrl"
    and "\<not> emergency (cfg_ignore_light c) ob"
    and "controller_forward api ctrl (speed ob) (location ob) (orientation ob)
           (min (cfg_target_speed c) (speed_limit ob)) (target ob) u = (ctl, ctrl')"
  shows "\<exists>out s'. forward api i ob u s = (Inr out, s')
           \<and> steer out = steer ctl \<and> brake out = brake ctl
           \<and> throttle out = (if steer ctl > 0.1 \<and> speed ob > 15
                              then min (throttle ctl) 0.3 else throttle ctl)
           \<and> dict_getitem (controller_dict s') i = Some ctrl'
           \<and> last_steer_dict s' i = Some (steer ctl)
           \<and> (\<forall>j. j \<noteq> i \<longrightarrow> dict_getitem (controller_dict s') j = dict_getitem (controller_dict s) j
                              \<and> last_steer_dict s' j = last_steer_dict s j)"
proof -
  from assms(1) have inv: "policy_inv c s hist" by (rule reachable_inv)
  then have ign: "ignore_traffic_light s = cfg_ignore_light c"
    and ts: "target_speed s = cfg_target_speed c"
    by (simp_all add: policy_inv_def)
  from assms(3) ign have ne: "\<not> emergency (ignore_traffic_light s) ob" by simp
  from assms(4) ts have step: "tracking_step api ctrl ob (target_speed s) u = (ctl, ctrl')"
    by (simp add: tracking_step_def)
  from assms(2) have present: "dict_contains (controller_dict s) i"
    by (simp add: dict_contains_def)
  from forward_tracking [OF assms(2) ne step] present show ?thesis
    by (simp add: getitem_replace)
qed

theorem tracking_step_calls_controller_and_records_steer_witness:
  "reachable simple_extern default_config
     (reset simple_extern 0 False (AutoPolicy_new default_config)) [LogReset 0]
   \<and> \<not> emergency (cfg_ignore_light default_config) obs_left
   \<and> (\<exists>out s'. forward simple_extern 0 obs_left 0
                   (reset simple_extern 0 False (AutoPolicy_new default_config)) = (Inr out, s')
         \<and> steer out = - 0.5 \<and> brake out = 0 \<and> throttle out = 0.75
         \<and> dict_getitem (controller_dict s') 0
             = Some (PID ((simple_pid_new DEFAULT_LATERAL_DICT DEFAULT_LONGITUDINAL_DICT 0.75 0.3 0.8)
                            \<lparr>error_sum := 0.5\<rparr>))
         \<and> last_steer_dict s' 0 = Some (- 0.5))"
proof -
  let ?s = "reset simple_extern 0 False (AutoPolicy_new default_config) :: simple_pid AutoPolicy"
  let ?p = "simple_pid_new DEFAULT_LATERAL_DICT DEFAULT_LONGITUDINAL_DICT 0.75 0.3 0.8"
  have reach: "reachable simple_extern default_config ?s [LogReset 0]"
    by (intro reachable.intros)
  have get: "dict_getitem (controller_dict ?s) 0 = Some (PID ?p)"
    by (simp add: reset_getitem new_entry_def AutoPolicy_new_fields default_config_def
          resolve_gains_def simple_extern_def)
  have ne: "\<not> emergency (cfg_ignore_light default_config) obs_left"
    by (simp add: emergency_def obs_left_def obs_clear_def default_config_def)
  have step: "controller_forward simple_extern (PID ?p) (speed obs_left) (location obs_left)
                (orientation obs_left) (min (cfg_target_speed default_config) (speed_limit obs_left))
                (target obs_left) 0
              = (\<lparr>steer = - 0.5, throttle = 0.75, brake = 0\<rparr>, PID (?p\<lparr>error_sum := 0.5\<rparr>))"
    by (simp add: simple_extern_def simple_pid_forward_def simple_pid_new_def default_config_def
          obs_left_def obs_clear_def DEFAULT_LATERAL_DICT_def DEFAULT_LONGITUDINAL_DICT_def Let_def)
  from tracking_step_calls_controller_and_records_steer [OF reach get ne step] reach ne
  show ?thesis by simp blast
qed

text \<open>
  C10. A forward step under an emergency condition leaves every controller, its accumulated
  errors included, exactly as it was. Hence a forward step that changes the controller
  stored for some id is a non-emergency step for that very id, and such a step stores the
  controller as its \<open>forward\<close> call left it.
\<close>

theorem emergency_step_leaves_controllers_untouched:
  "(emergency (ignore_traffic_light s) ob \<longrightarrow>
      controller_dict (snd (forward api i ob u s)) = controller_dict s)
   \<and> (dict_getitem (controller_dict (snd (forward api i ob u s))) j
        \<noteq> dict_getitem (controller_dict s) j \<longrightarrow>
      \<not> emergency (ignore_traffic_light s) ob \<and> j = i)
   \<and> (\<not> emergency (ignore_traffic_light s) ob
        \<and> dict_getitem (controller_dict s) i = Some ctrl \<longrightarrow>
      dict_getitem (controller_dict (snd (forward api i ob u s))) i
        = Some (snd (controller_forward api ctrl (speed ob) (location ob) (orientation ob)
                       (min (target_speed s) (speed_limit ob)) (target ob) u)))"
proof -
  have frame: "controller_dict (snd (forward api i ob u s)) = controller_dict s"
    if "emergency (ignore_traffic_light s) ob"
  proof (cases "dict_getitem (controller_dict s) i")
    case None
    then show ?thesis by (simp add: forward_missing)
  next
    case (Some ctrl)
    from forward_emergency [OF this that] show ?thesis by simp
  qed
  have stored: "dict_getitem (controller_dict (snd (forward api i ob u s))) i
        = Some (snd (controller_forward api ctrl (speed ob) (location ob) (orientation ob)
                       (min (target_speed s) (speed_limit ob)) (target ob) u))"
    if ne: "\<not> emergency (ignore_traffic_light s) ob"
      and get: "dict_getitem (controller_dict s) i = Some ctrl" for ctrl
  proof -
    obtain ctl c' where step: "tracking_step api ctrl ob (target_speed s) u = (ctl, c')"
      by (cases "tracking_step api ctrl ob (target_speed s) u") blast
    from get have "dict_contains (controller_dict s) i" by (simp add: dict_contains_def)
    with forward_tracking [OF get ne step] step show ?thesis
      by (simp add: getitem_replace tracking_step_def)
  qed
  have others: "dict_getitem (controller_dict (snd (forward api i ob u s))) j
                  = dict_getitem (controller_dict s) j" if "j \<noteq> i"
    using that
    by (auto simp: forward_def Let_def getitem_replace split: option.splits prod.splits)
  from frame stored others show ?thesis by metis
qed

theorem emergency_step_leaves_controllers_untouched_witness:
  "emergency (ignore_traffic_light
      (reset simple_extern 0 False (AutoPolicy_new default_config) :: simple_pid AutoPolicy)) obs_red
   \<and> controller_dict (snd (forward simple_extern 0 obs_red 0
          (reset simple_extern 0 False (AutoPolicy_new default_config))))
     = controller_dict (reset simple_extern 0 False (AutoPolicy_new default_config))
   \<and> \<not> emergency (ignore_traffic_light
      (reset simple_extern 0 False (AutoPolicy_new default_config) :: simple_pid AutoPolicy)) obs_left
   \<and> dict_getitem (controller_dict (snd (forward simple_extern 0 obs_left 0
          (reset simple_extern 0 False (AutoPolicy_new default_config))))) 0
     = Some (PID ((simple_pid_new DEFAULT_LATERAL_DICT DEFAULT_LONGITUDINAL_DICT 0.75 0.3 0.8)
                    \<lparr>error_sum := 0.5\<rparr>))"
proof -
  let ?s = "reset simple_extern 0 False (AutoPolicy_new default_config) :: simple_pid AutoPolicy"
  let ?p = "simple_pid_new DEFAULT_LATERAL_DICT DEFAULT_LONGITUDINAL_DICT 0.75 0.3 0.8"
  have ign: "ignore_traffic_light ?s = False" and ts: "target_speed ?s = 25"
    by (simp_all add: reset_fields AutoPolicy_new_fields default_config_def)
  have em: "emergency (ignore_traffic_light ?s) obs_red"
    unfolding ign by (simp add: emergency_def obs_red_def obs_clear_def)
  have ne: "\<not> emergency (ignore_traffic_light ?s) obs_left"
    unfolding ign by (simp add: emergency_def obs_left_def obs_clear_def)
  have get: "dict_getitem (controller_dict ?s) 0 = Some (PID ?p)"
    by (simp add: reset_getitem new_entry_def AutoPolicy_new_fields default_config_def
          resolve_gains_def simple_extern_def)
  have step: "snd (controller_forward simple_extern (PID ?p) (speed obs_left) (location obs_left)
                (orientation obs_left) (min 25 (speed_limit obs_left)) (target obs_left) 0)
              = PID (?p\<lparr>error_sum := 0.5\<rparr>)"
    by (simp add: simple_extern_def simple_pid_forward_def simple_pid_new_def
          obs_left_def obs_clear_def DEFAULT_LONGITUDINAL_DICT_def Let_def)
  from emergency_step_leaves_controllers_untouched [of ?s obs_red simple_extern 0 0 0 "PID ?p"] em
  have a: "controller_dict (snd (forward simple_extern 0 obs_red 0 ?s)) = controller_dict ?s"
    by blast
  from emergency_step_leaves_controllers_untouched [of ?s obs_left simple_extern 0 0 0 "PID ?p"]
    ne get
  have "dict_getitem (controller_dict (snd (forward simple_extern 0 obs_left 0 ?s))) 0
          = Some (snd (controller_forward simple_extern (PID ?p) (speed obs_left) (location obs_left)
                (orientation obs_left) (min (target_speed ?s) (speed_limit obs_left))
                (target obs_left) 0))"
    by blast
  then have b: "dict_getitem (controller_dict (snd (forward simple_extern 0 obs_left 0 ?s))) 0
          = Some (PID (?p\<lparr>error_sum := 0.5\<rparr>))"
    unfolding ts step .
  from em a ne b show ?thesis by blast
qed

subsection \<open>Reset of one id\<close>

lemma new_entry_configured:
  assumes "policy_inv c s hist"
  shows "new_entry api noise s = fresh_controller api c noise"
proof -
  from assms have "resolve_gains (lateral_dict s) (target_speed s) DEFAULT_LAT_HW_DICT DEFAULT_LAT_CITY_DICT
      = resolve_gains (cfg_lateral_dict c) (cfg_target_speed c) DEFAULT_LAT_HW_DICT DEFAULT_LAT_CITY_DICT"
    and "resolve_gains (longitudinal_dict s) (target_speed s) DEFAULT_LONG_HW_DICT DEFAULT_LONG_CITY_DICT
      = resolve_gains (cfg_longitudinal_dict c) (cfg_target_speed c) DEFAULT_LONG_HW_DICT DEFAULT_LONG_CITY_DICT"
    by (simp_all add: policy_inv_def gains_inv_resolve)
  with assms show ?thesis
    by (simp add: new_entry_def fresh_controller_def policy_inv_def Let_def)
qed

lemma count_list_filter_out: "count_list (filter (\<lambda>k. k \<noteq> i) xs) i = 0"
  by (induction xs) simp_all

lemma count_list_app: "count_list (xs @ ys) i = count_list xs i + count_list ys i"
  by (induction xs) simp_all

lemma reset_count: "count_list (dict_keys (controller_dict (reset api i noise s))) i = 1"
  by (simp add: reset_keys count_list_app count_list_filter_out)

text \<open>
  C5. After a reset of an id in a reachable state the controller dictionary has exactly one
  entry for the id, and no key twice. The entry is a newly constructed controller: it is
  determined by the configuration alone, whatever controller the id had before. The
  last-steer cache of the id reads 0.
\<close>

theorem reset_replaces_controller_and_zeroes_steer:
  assumes "reachable api c s hist"
  shows "count_list (dict_keys (controller_dict (reset api i noise s))) i = 1
         \<and> keys_distinct (controller_dict (reset api i noise s))
         \<and> dict_getitem (controller_dict (reset api i noise s)) i
             = Some (fresh_controller api c noise)
         \<and> last_steer_dict (reset api i noise s) i = Some 0"
proof -
  from assms have inv: "policy_inv c s hist" by (rule reachable_inv)
  then have "keys_distinct (controller_dict s)" by (simp add: policy_inv_def)
  then have "keys_distinct (controller_dict (reset api i noise s))"
    by (rule reset_keys_distinct)
  with new_entry_configured [OF inv] show ?thesis
    by (simp add: reset_count reset_getitem reset_last_steer)
qed

lemma simple_step_reachable:
  "reachable simple_extern default_config
     (snd (forward simple_extern 0 obs_left 0
        (reset simple_extern 0 False (AutoPolicy_new default_config))))
     [LogForward 0 obs_left (Inr \<lparr>steer = - 0.5, throttle = 0.75, brake = 0\<rparr>), LogReset 0]"
proof -
  have "reachable simple_extern default_config
          (reset simple_extern 0 False (AutoPolicy_new default_config)) [LogReset 0]"
    by (intro reachable.intros)
  then show ?thesis
    by (rule reachable_forward [where u = 0]) (simp add: simple_first_step)
qed

lemma simple_fresh_controller:
  "fresh_controller simple_extern default_config False
     = PID (simple_pid_new DEFAULT_LATERAL_DICT DEFAULT_LONGITUDINAL_DICT 0.75 0.3 0.8)"
  by (simp add: fresh_controller_def default_config_def resolve_gains_def simple_extern_def)

theorem reset_replaces_controller_and_zeroes_steer_witness:
  "dict_getitem (controller_dict (snd (forward simple_extern 0 obs_left 0
        (reset simple_extern 0 False (AutoPolicy_new default_config))))) 0
     = Some (PID ((simple_pid_new DEFAULT_LATERAL_DICT DEFAULT_LONGITUDINAL_DICT 0.75 0.3 0.8)
                    \<lparr>error_sum := 0.5\<rparr>))
   \<and> count_list (dict_keys (controller_dict (reset simple_extern 0 False
        (snd (forward simple_extern 0 obs_left 0
           (reset simple_extern 0 False (AutoPolicy_new default_config))))))) 0 = 1
   \<and> dict_getitem (controller_dict (reset simple_extern 0 False
        (snd (forward simple_extern 0 obs_left 0
           (reset simple_extern 0 False (AutoPolicy_new default_config)))))) 0
     = Some (PID (simple_pid_new DEFAULT_LATERAL_DICT DEFAULT_LONGITUDINAL_DICT 0.75 0.3 0.8))
   \<and> last_steer_dict (reset simple_extern 0 False
        (snd (forward simple_extern 0 obs_left 0
           (reset simple_extern 0 False (AutoPolicy_new default_config))))) 0 = Some 0"
proof -
  have "dict_getitem (controller_dict (snd (forward simple_extern 0 obs_left 0
        (reset simple_extern 0 False (AutoPolicy_new default_config))))) 0
     = Some (PID ((simple_pid_new DEFAULT_LATERAL_DICT DEFAULT_LONGITUDINAL_DICT 0.75 0.3 0.8)
                    \<lparr>error_sum := 0.5\<rparr>))"
    by (simp add: simple_first_step getitem_replace dict_contains_def reset_getitem)
  with reset_replaces_controller_and_zeroes_steer [OF simple_step_reachable, of 0 False]
  show ?thesis by (simp add: simple_fresh_controller)
qed

subsection \<open>Gain presets\<close>

text \<open>
  C9. A reset in a reachable state resolves the lateral and the longitudinal gain set each
  on its own: the configured dictionary if there is one, else the highway preset if the
  configured target speed exceeds 50 and the city preset if not; the controller is built
  with the two resolved sets. Construction leaves the gain sets as configured, unresolved,
  and a forward step does not touch them.
\<close>

theorem gains_resolved_at_reset:
  assumes "reachable api c s hist"
  shows "(\<forall>g. cfg_lateral_dict c = Some g \<longrightarrow> lateral_dict (reset api i noise s) = Some g)
         \<and> (cfg_lateral_dict c = None \<longrightarrow>
              lateral_dict (reset api i noise s)
                = Some (if cfg_target_speed c > 50 then DEFAULT_LAT_HW_DICT
                        else DEFAULT_LAT_CITY_DICT))
         \<and> (\<forall>g. cfg_longitudinal_dict c = Some g \<longrightarrow>
               longitudinal_dict (reset api i noise s) = Some g)
         \<and> (cfg_longitudinal_dict c = None \<longrightarrow>
              longitudinal_dict (reset api i noise s)
                = Some (if cfg_target_speed c > 50 then DEFAULT_LONG_HW_DICT
                        else DEFAULT_LONG_CITY_DICT))
         \<and> (\<forall>lat lon. lateral_dict (reset api i noise s) = Some lat
                \<and> longitudinal_dict (reset api i noise s) = Some lon \<longrightarrow>
              dict_getitem (controller_dict (reset api i noise s)) i
                = Some (let pid = VehiclePIDController api lat lon
                                    (cfg_max_throttle c) (cfg_max_brake c) (cfg_max_steer c)
                        in if noise then SteerNoiseWrapper pid ''uniform'' (- 0.3) 0.3
                           else PID pid))
         \<and> lateral_dict (AutoPolicy_new c :: 'c AutoPolicy) = cfg_lateral_dict c
         \<and> longitudinal_dict (AutoPolicy_new c :: 'c AutoPolicy) = cfg_longitudinal_dict c
         \<and> lateral_dict (snd (forward api j ob u s)) = lateral_dict s
         \<and> longitudinal_dict (snd (forward api j ob u s)) = longitudinal_dict s"
proof -
  from assms have inv: "policy_inv c s hist" by (rule reachable_inv)
  then have ts: "target_speed s = cfg_target_speed c"
    and lat: "gains_inv (lateral_dict s) (cfg_lateral_dict c) (cfg_target_speed c)
        DEFAULT_LAT_HW_DICT DEFAULT_LAT_CITY_DICT"
    and lon: "gains_inv (longitudinal_dict s) (cfg_longitudinal_dict c) (cfg_target_speed c)
        DEFAULT_LONG_HW_DICT DEFAULT_LONG_CITY_DICT"
    by (simp_all add: policy_inv_def)
  have l1: "lateral_dict (reset api i noise s)
      = Some (resolve_gains (cfg_lateral_dict c) (cfg_target_speed c)
                DEFAULT_LAT_HW_DICT DEFAULT_LAT_CITY_DICT)"
    by (simp add: reset_gains ts gains_inv_resolve [OF lat])
  have l2: "longitudinal_dict (reset api i noise s)
      = Some (resolve_gains (cfg_longitudinal_dict c) (cfg_target_speed c)
                DEFAULT_LONG_HW_DICT DEFAULT_LONG_CITY_DICT)"
    by (simp add: reset_gains ts gains_inv_resolve [OF lon])
  have built: "dict_getitem (controller_dict (reset api i noise s)) i
                 = Some (fresh_controller api c noise)"
    by (simp add: reset_getitem new_entry_configured [OF inv])
  show ?thesis
    by (simp add: l1 l2 built fresh_controller_def resolve_gains_def AutoPolicy_new_fields
          forward_fields Let_def)
qed

theorem gains_resolved_at_reset_witness:
  "cfg_lateral_dict (default_config\<lparr>cfg_lateral_dict := None, cfg_target_speed := 60\<rparr>) = None
   \<and> cfg_longitudinal_dict (default_config\<lparr>cfg_lateral_dict := None, cfg_target_speed := 60\<rparr>)
       = Some DEFAULT_LONGITUDINAL_DICT
   \<and> lateral_dict (AutoPolicy_new (default_config\<lparr>cfg_lateral_dict := None, cfg_target_speed := 60\<rparr>)
        :: simple_pid AutoPolicy) = None
   \<and> lateral_dict (reset simple_extern 0 False
        (AutoPolicy_new (default_config\<lparr>cfg_lateral_dict := None, cfg_target_speed := 60\<rparr>)))
       = Some DEFAULT_LAT_HW_DICT
   \<and> longitudinal_dict (reset simple_extern 0 False
        (AutoPolicy_new (default_config\<lparr>cfg_lateral_dict := None, cfg_target_speed := 60\<rparr>)))
       = Some DEFAULT_LONGITUDINAL_DICT
   \<and> dict_getitem (controller_dict (reset simple_extern 0 False
        (AutoPolicy_new (default_config\<lparr>cfg_lateral_dict := None, cfg_target_speed := 60\<rparr>)))) 0
       = Some (PID (simple_pid_new DEFAULT_LAT_HW_DICT DEFAULT_LONGITUDINAL_DICT 0.75 0.3 0.8))"
proof -
  let ?c = "default_config\<lparr>cfg_lateral_dict := None, cfg_target_speed := 60\<rparr>"
  have reach: "reachable simple_extern ?c (AutoPolicy_new ?c) []"
    by (rule reachable_new)
  have c: "cfg_lateral_dict ?c = None" "cfg_longitudinal_dict ?c = Some DEFAULT_LONGITUDINAL_DICT"
    "cfg_target_speed ?c = 60" "cfg_max_throttle ?c = 0.75" "cfg_max_brake ?c = 0.3"
    "cfg_max_steer ?c = 0.8"
    by (simp_all add: default_config_def)
  have new: "VehiclePIDController simple_extern = simple_pid_new"
    by (simp add: simple_extern_def)
  from gains_resolved_at_reset [OF reach, of 0 False 0 obs_clear 0]
  show ?thesis
    by (clarsimp simp: c new)
qed

subsection \<open>Steer noise\<close>

lemma skip_empty_live: "skip_empty es n = Some (m, e) \<Longrightarrow> e \<in> set (live es)"
  by (induction es n rule: skip_empty.induct) simp_all

lemma skip_empty_first: "live es \<noteq> [] \<Longrightarrow> \<exists>m. skip_empty es n = Some (m, hd (live es))"
  by (induction es n rule: skip_empty.induct) simp_all

lemma set_live: "set (live es) = {e. Some e \<in> set es}"
  by (induction es rule: live.induct) auto

lemma next_entry_key:
  assumes "next_entry d pos = Some (m, k, v)"
  shows "k \<in> set (dict_keys d)"
proof -
  from assms have "(k, v) \<in> set (live (drop pos (dk_entries d)))"
    by (simp add: next_entry_def skip_empty_live)
  then have "Some (k, v) \<in> set (drop pos (dk_entries d))"
    by (simp add: set_live)
  then have "Some (k, v) \<in> set (dk_entries d)"
    by (rule in_set_dropD)
  then have "(k, v) \<in> set (live (dk_entries d))"
    by (simp add: set_live)
  then show ?thesis
    by (force simp: dict_keys_def)
qed

lemma next_entry_first:
  assumes "dict_keys d \<noteq> []"
  shows "\<exists>m v. next_entry d 0 = Some (m, hd (dict_keys d), v)"
proof -
  from assms have ne: "live (dk_entries d) \<noteq> []"
    by (simp add: dict_keys_def)
  from skip_empty_first [OF this, of 0] obtain m
    where "skip_empty (dk_entries d) 0 = Some (m, hd (live (dk_entries d)))" by blast
  with ne show ?thesis
    by (cases "hd (live (dk_entries d))") (simp add: next_entry_def dict_keys_def hd_map)
qed

lemma reset_keys_set:
  "k \<in> set (dict_keys (controller_dict s)) \<Longrightarrow>
     set (dict_keys (controller_dict (reset api k noise s))) = set (dict_keys (controller_dict s))"
  by (auto simp: reset_keys)

text \<open>The loop over the dictionary is a sequence of resets of keys of the dictionary.\<close>

lemma reset_iter_fold:
  "\<exists>ks. snd (reset_iter api noise used pos len s) = fold (\<lambda>k. reset api k noise) ks s
        \<and> set ks \<subseteq> set (dict_keys (controller_dict s))"
proof (induction len arbitrary: pos s)
  case 0
  have "snd (reset_iter api noise used pos 0 s) = fold (\<lambda>k. reset api k noise) [] s"
    by (simp split: option.splits)
  then show ?case by (intro exI [of _ "[]"]) simp
next
  case (Suc len)
  show ?case
  proof (cases "used \<noteq> ma_used (controller_dict s) \<or> next_entry (controller_dict s) pos = None")
    case True
    then have "snd (reset_iter api noise used pos (Suc len) s) = fold (\<lambda>k. reset api k noise) [] s"
      by auto
    then show ?thesis by (intro exI [of _ "[]"]) simp
  next
    case False
    then obtain m k v where nxt: "next_entry (controller_dict s) pos = Some (m, k, v)"
      and used: "used = ma_used (controller_dict s)"
      by (cases "next_entry (controller_dict s) pos") auto
    from next_entry_key [OF nxt] have k: "k \<in> set (dict_keys (controller_dict s))" .
    from Suc.IH [of "Suc m" "reset api k noise s"] obtain ks
      where run: "snd (reset_iter api noise used (Suc m) len (reset api k noise s))
                    = fold (\<lambda>k. reset api k noise) ks (reset api k noise s)"
        and sub: "set ks \<subseteq> set (dict_keys (controller_dict (reset api k noise s)))"
      by blast
    from nxt used run have "snd (reset_iter api noise used pos (Suc len) s)
                              = fold (\<lambda>k. reset api k noise) (k # ks) s"
      by simp
    moreover from sub k have "set (k # ks) \<subseteq> set (dict_keys (controller_dict s))"
      by (simp add: reset_keys_set)
    ultimately show ?thesis by blast
  qed
qed

text \<open>Started on a dictionary with keys, the loop resets the first of them.\<close>

lemma reset_iter_start:
  assumes "dict_keys (controller_dict s) \<noteq> []"
  shows "\<exists>ks. snd (reset_iter api noise (ma_used (controller_dict s)) 0
                    (ma_used (controller_dict s)) s)
               = fold (\<lambda>k. reset api k noise) ks s
            \<and> set ks \<subseteq> set (dict_keys (controller_dict s))
            \<and> hd (dict_keys (controller_dict s)) \<in> set ks"
proof -
  let ?k = "hd (dict_keys (controller_dict s))"
  from assms obtain len where len: "ma_used (controller_dict s) = Suc len"
    by (cases "ma_used (controller_dict s)") (simp_all add: ma_used_def dict_keys_def)
  from next_entry_first [OF assms] obtain m v
    where nxt: "next_entry (controller_dict s) 0 = Some (m, ?k, v)" by blast
  from assms have k: "?k \<in> set (dict_keys (controller_dict s))" by simp
  from reset_iter_fold [of api noise "Suc len" "Suc m" len "reset api ?k noise s"] obtain ks
    where run: "snd (reset_iter api noise (Suc len) (Suc m) len (reset api ?k noise s))
                  = fold (\<lambda>k. reset api k noise) ks (reset api ?k noise s)"
      and sub: "set ks \<subseteq> set (dict_keys (controller_dict (reset api ?k noise s)))"
    by blast
  from nxt len run have "snd (reset_iter api noise (ma_used (controller_dict s)) 0
                    (ma_used (controller_dict s)) s)
               = fold (\<lambda>k. reset api k noise) (?k # ks) s"
    by simp
  moreover from sub k have "set (?k # ks) \<subseteq> set (dict_keys (controller_dict s))"
    by (simp add: reset_keys_set)
  ultimately show ?thesis
    by (intro exI [of _ "?k # ks"]) simp
qed

text \<open>
  What a reset through either interface does to the dictionary: it resets a list of ids.
  Given ids, these are the ids; given none, they are tracked ids, the first tracked id
  among them if there is one.
\<close>

lemma reset_ids_fold:
  "\<exists>ks. snd (reset_ids api data_id noise s) = fold (\<lambda>k. reset api k noise) ks s
        \<and> (\<forall>ids. data_id = Some ids \<longrightarrow> ks = ids)
        \<and> (data_id = None \<longrightarrow>
              set ks \<subseteq> set (dict_keys (controller_dict s))
              \<and> (dict_keys (controller_dict s) \<noteq> [] \<longrightarrow>
                    hd (dict_keys (controller_dict s)) \<in> set ks))"
proof (cases data_id)
  case (Some ids)
  then show ?thesis by (simp add: reset_ids_def)
next
  case None
  show ?thesis
  proof (cases "dict_keys (controller_dict s) = []")
    case True
    from reset_iter_fold [of api noise "ma_used (controller_dict s)" 0
        "ma_used (controller_dict s)" s] True None
    show ?thesis by (simp add: reset_ids_def)
  next
    case False
    from reset_iter_start [OF False, of api noise] False None
    show ?thesis by (simp add: reset_ids_def)
  qed
qed

lemma uniform_range:
  assumes "lo \<le> hi" and "0 \<le> u" and "u \<le> 1"
  shows "lo \<le> uniform lo hi u" and "uniform lo hi u \<le> hi"
proof -
  from assms have "0 \<le> (hi - lo) * u" by simp
  then show "lo \<le> uniform lo hi u" by (simp add: uniform_def)
  from assms have "(hi - lo) * u \<le> (hi - lo) * 1"
    by (intro mult_left_mono) simp_all
  then show "uniform lo hi u \<le> hi" by (simp add: uniform_def)
qed

text \<open>
  C8. In a reachable state, a reset through the eval-mode interface stores the new controller
  bare for every id it is given; a reset through the collect-mode interface stores it inside
  a \<open>SteerNoiseWrapper\<close> for uniform noise between -0.3 and 0.3 exactly if the configuration's
  noise flag is set. Whatever the argument, a reset through either interface resets a list
  of ids: the ids given, or, given none, tracked ids with the first tracked id among them.
  Afterwards each id of the list has the new controller, bare in eval mode and wrapped in
  collect mode exactly if the flag is set, and every other id has the controller it had.
  The wrapper passes throttle and brake of the controller's command on unchanged and moves
  its steer by the offset drawn, which lies within the range.
\<close>

theorem noise_wrapper_only_in_collect_mode:
  assumes "reachable api c s hist"
  shows "(i \<in> set ids \<longrightarrow>
           (\<exists>pid. dict_getitem (controller_dict (snd (reset_eval api (Some ids) s))) i
                     = Some (PID pid)
                \<and> dict_getitem (controller_dict (snd (reset_collect api (Some ids) s))) i
                     = Some (if cfg_noise c then SteerNoiseWrapper pid ''uniform'' (- 0.3) 0.3
                             else PID pid)))
         \<and> (\<exists>pid ks ks'.
                snd (reset_eval api data_id s) = fold (\<lambda>k. reset api k False) ks s
              \<and> snd (reset_collect api data_id s) = fold (\<lambda>k. reset api k (cfg_noise c)) ks' s
              \<and> (\<forall>given. data_id = Some given \<longrightarrow> ks = given \<and> ks' = given)
              \<and> (data_id = None \<longrightarrow>
                    set ks \<subseteq> set (dict_keys (controller_dict s))
                    \<and> set ks' \<subseteq> set (dict_keys (controller_dict s))
                    \<and> (dict_keys (controller_dict s) \<noteq> [] \<longrightarrow>
                          hd (dict_keys (controller_dict s)) \<in> set ks
                          \<and> hd (dict_keys (controller_dict s)) \<in> set ks'))
              \<and> (\<forall>j. dict_getitem (controller_dict (snd (reset_eval api data_id s))) j
                        = (if j \<in> set ks then Some (PID pid)
                           else dict_getitem (controller_dict s) j))
              \<and> (\<forall>j. dict_getitem (controller_dict (snd (reset_collect api data_id s))) j
                        = (if j \<in> set ks'
                           then Some (if cfg_noise c
                                      then SteerNoiseWrapper pid ''uniform'' (- 0.3) 0.3
                                      else PID pid)
                           else dict_getitem (controller_dict s) j)))
         \<and> throttle (fst (controller_forward api (SteerNoiseWrapper p ty lo hi) v loc ori tv tloc u))
             = throttle (fst (pid_forward api p v loc ori tv tloc))
         \<and> brake (fst (controller_forward api (SteerNoiseWrapper p ty lo hi) v loc ori tv tloc u))
             = brake (fst (pid_forward api p v loc ori tv tloc))
         \<and> (lo \<le> hi \<and> 0 \<le> u \<and> u \<le> 1 \<longrightarrow>
              steer (fst (pid_forward api p v loc ori tv tloc)) + lo
                \<le> steer (fst (controller_forward api (SteerNoiseWrapper p ty lo hi) v loc ori tv tloc u))
              \<and> steer (fst (controller_forward api (SteerNoiseWrapper p ty lo hi) v loc ori tv tloc u))
                \<le> steer (fst (pid_forward api p v loc ori tv tloc)) + hi)
         \<and> steer (fst (controller_forward api (SteerNoiseWrapper p ty lo hi) v loc ori tv tloc u))
             = steer (fst (pid_forward api p v loc ori tv tloc)) + uniform lo hi u"
proof -
  let ?pid = "VehiclePIDController api
                  (resolve_gains (cfg_lateral_dict c) (cfg_target_speed c)
                     DEFAULT_LAT_HW_DICT DEFAULT_LAT_CITY_DICT)
                  (resolve_gains (cfg_longitudinal_dict c) (cfg_target_speed c)
                     DEFAULT_LONG_HW_DICT DEFAULT_LONG_CITY_DICT)
                  (cfg_max_throttle c) (cfg_max_brake c) (cfg_max_steer c)"
  let ?wrapped = "if cfg_noise c then SteerNoiseWrapper ?pid ''uniform'' (- 0.3) 0.3 else PID ?pid"
  let ?keys = "dict_keys (controller_dict s)"
  from assms have inv: "policy_inv c s hist" by (rule reachable_inv)
  then have flag: "cfg s = c" by (simp add: policy_inv_def)
  have entry: "new_entry api noise s
                 = (if noise then SteerNoiseWrapper ?pid ''uniform'' (- 0.3) 0.3 else PID ?pid)"
    for noise
    by (simp add: new_entry_configured [OF inv] fresh_controller_def Let_def)
  have given: "dict_getitem (controller_dict (snd (reset_eval api (Some ids) s))) i = Some (PID ?pid)
      \<and> dict_getitem (controller_dict (snd (reset_collect api (Some ids) s))) i = Some ?wrapped"
    if "i \<in> set ids"
    using that
    by (simp add: reset_eval_def reset_collect_def reset_ids_def fold_reset_getitem entry flag)
  have A: "i \<in> set ids \<longrightarrow>
           (\<exists>pid. dict_getitem (controller_dict (snd (reset_eval api (Some ids) s))) i
                     = Some (PID pid)
                \<and> dict_getitem (controller_dict (snd (reset_collect api (Some ids) s))) i
                     = Some (if cfg_noise c then SteerNoiseWrapper pid ''uniform'' (- 0.3) 0.3
                             else PID pid))"
    using given by blast
  from reset_ids_fold [of api data_id False s] obtain ks
    where e1: "snd (reset_eval api data_id s) = fold (\<lambda>k. reset api k False) ks s"
      and e2: "\<forall>given. data_id = Some given \<longrightarrow> ks = given"
      and e3: "data_id = None \<longrightarrow> set ks \<subseteq> set ?keys \<and> (?keys \<noteq> [] \<longrightarrow> hd ?keys \<in> set ks)"
    unfolding reset_eval_def by blast
  from reset_ids_fold [of api data_id "cfg_noise c" s] obtain ks'
    where c1: "snd (reset_collect api data_id s) = fold (\<lambda>k. reset api k (cfg_noise c)) ks' s"
      and c2: "\<forall>given. data_id = Some given \<longrightarrow> ks' = given"
      and c3: "data_id = None \<longrightarrow> set ks' \<subseteq> set ?keys \<and> (?keys \<noteq> [] \<longrightarrow> hd ?keys \<in> set ks')"
    unfolding reset_collect_def flag by blast
  have e4: "\<forall>j. dict_getitem (controller_dict (snd (reset_eval api data_id s))) j
                = (if j \<in> set ks then Some (PID ?pid) else dict_getitem (controller_dict s) j)"
    by (simp add: e1 fold_reset_getitem entry)
  have c4: "\<forall>j. dict_getitem (controller_dict (snd (reset_collect api data_id s))) j
                = (if j \<in> set ks' then Some ?wrapped else dict_getitem (controller_dict s) j)"
    by (simp add: c1 fold_reset_getitem entry)
  have B: "\<exists>pid ks ks'.
                snd (reset_eval api data_id s) = fold (\<lambda>k. reset api k False) ks s
              \<and> snd (reset_collect api data_id s) = fold (\<lambda>k. reset api k (cfg_noise c)) ks' s
              \<and> (\<forall>given. data_id = Some given \<longrightarrow> ks = given \<and> ks' = given)
              \<and> (data_id = None \<longrightarrow>
                    set ks \<subseteq> set ?keys \<and> set ks' \<subseteq> set ?keys
                    \<and> (?keys \<noteq> [] \<longrightarrow> hd ?keys \<in> set ks \<and> hd ?keys \<in> set ks'))
              \<and> (\<forall>j. dict_getitem (controller_dict (snd (reset_eval api data_id s))) j
                        = (if j \<in> set ks then Some (PID pid)
                           else dict_getitem (controller_dict s) j))
              \<and> (\<forall>j. dict_getitem (controller_dict (snd (reset_collect api data_id s))) j
                        = (if j \<in> set ks'
                           then Some (if cfg_noise c
                                      then SteerNoiseWrapper pid ''uniform'' (- 0.3) 0.3
                                      else PID pid)
                           else dict_getitem (controller_dict s) j))"
  proof (rule exI [of _ ?pid], rule exI [of _ ks], rule exI [of _ ks'], intro conjI)
    show "snd (reset_eval api data_id s) = fold (\<lambda>k. reset api k False) ks s" by (rule e1)
    show "snd (reset_collect api data_id s) = fold (\<lambda>k. reset api k (cfg_noise c)) ks' s"
      by (rule c1)
    show "\<forall>given. data_id = Some given \<longrightarrow> ks = given \<and> ks' = given"
      using e2 c2 by blast
    show "data_id = None \<longrightarrow>
            set ks \<subseteq> set ?keys \<and> set ks' \<subseteq> set ?keys
            \<and> (?keys \<noteq> [] \<longrightarrow> hd ?keys \<in> set ks \<and> hd ?keys \<in> set ks')"
      using e3 c3 by blast
    show "\<forall>j. dict_getitem (controller_dict (snd (reset_eval api data_id s))) j
                = (if j \<in> set ks then Some (PID ?pid) else dict_getitem (controller_dict s) j)"
      by (rule e4)
    show "\<forall>j. dict_getitem (controller_dict (snd (reset_collect api data_id s))) j
                = (if j \<in> set ks' then Some ?wrapped else dict_getitem (controller_dict s) j)"
      by (rule c4)
  qed
  obtain raw p' where raw: "pid_forward api p v loc ori tv tloc = (raw, p')"
    by (cases "pid_forward api p v loc ori tv tloc") blast
  have wrapped: "fst (controller_forward api (SteerNoiseWrapper p ty lo hi) v loc ori tv tloc u)
                   = raw\<lparr>steer := steer raw + uniform lo hi u\<rparr>"
    by (simp add: raw)
  have C: "throttle (fst (controller_forward api (SteerNoiseWrapper p ty lo hi) v loc ori tv tloc u))
             = throttle (fst (pid_forward api p v loc ori tv tloc))"
    by (simp add: wrapped raw)
  have D: "brake (fst (controller_forward api (SteerNoiseWrapper p ty lo hi) v loc ori tv tloc u))
             = brake (fst (pid_forward api p v loc ori tv tloc))"
    by (simp add: wrapped raw)
  have E: "lo \<le> hi \<and> 0 \<le> u \<and> u \<le> 1 \<longrightarrow>
              steer (fst (pid_forward api p v loc ori tv tloc)) + lo
                \<le> steer (fst (controller_forward api (SteerNoiseWrapper p ty lo hi) v loc ori tv tloc u))
              \<and> steer (fst (controller_forward api (SteerNoiseWrapper p ty lo hi) v loc ori tv tloc u))
                \<le> steer (fst (pid_forward api p v loc ori tv tloc)) + hi"
    using uniform_range [of lo hi u] by (simp add: wrapped raw)
  have F: "steer (fst (controller_forward api (SteerNoiseWrapper p ty lo hi) v loc ori tv tloc u))
             = steer (fst (pid_forward api p v loc ori tv tloc)) + uniform lo hi u"
    by (simp add: wrapped raw)
  show ?thesis
    by (rule conjI [OF A conjI [OF B conjI [OF C conjI [OF D conjI [OF E F]]]]])
qed

lemma keys_after_first_reset: "dict_keys (controller_dict (reset api k noise (AutoPolicy_new c))) = [k]"
  by (simp add: reset_keys AutoPolicy_new_fields dict_new_keys)

theorem noise_wrapper_only_in_collect_mode_witness:
  "reachable simple_extern (default_config\<lparr>cfg_noise := True\<rparr>)
     (reset simple_extern 0 False (AutoPolicy_new (default_config\<lparr>cfg_noise := True\<rparr>)))
     [LogReset 0]
   \<and> (0 :: int) \<in> set [0]
   \<and> dict_getitem (controller_dict
          (reset simple_extern 0 False (AutoPolicy_new (default_config\<lparr>cfg_noise := True\<rparr>)))) 0
       = Some (PID (simple_pid_new DEFAULT_LATERAL_DICT DEFAULT_LONGITUDINAL_DICT 0.75 0.3 0.8))
   \<and> (\<exists>pid. dict_getitem (controller_dict (snd (reset_eval simple_extern (Some [0])
                (reset simple_extern 0 False
                   (AutoPolicy_new (default_config\<lparr>cfg_noise := True\<rparr>)))))) 0
                 = Some (PID pid)
            \<and> dict_getitem (controller_dict (snd (reset_collect simple_extern (Some [0])
                (reset simple_extern 0 False
                   (AutoPolicy_new (default_config\<lparr>cfg_noise := True\<rparr>)))))) 0
                 = Some (SteerNoiseWrapper pid ''uniform'' (- 0.3) 0.3))
   \<and> (\<exists>pid. dict_getitem (controller_dict (snd (reset_eval simple_extern None
                (reset simple_extern 0 False
                   (AutoPolicy_new (default_config\<lparr>cfg_noise := True\<rparr>)))))) 0
                 = Some (PID pid)
            \<and> dict_getitem (controller_dict (snd (reset_collect simple_extern None
                (reset simple_extern 0 False
                   (AutoPolicy_new (default_config\<lparr>cfg_noise := True\<rparr>)))))) 0
                 = Some (SteerNoiseWrapper pid ''uniform'' (- 0.3) 0.3))
   \<and> ((- 0.3 :: real) \<le> 0.3 \<and> (0 :: real) \<le> 3 / 4 \<and> (3 / 4 :: real) \<le> 1)
   \<and> throttle (fst (controller_forward simple_extern
          (SteerNoiseWrapper (simple_pid_new DEFAULT_LATERAL_DICT DEFAULT_LONGITUDINAL_DICT 0.75 0.3 0.8)
             ''uniform'' (- 0.3) 0.3)
          20 (0.5, 0, 0) (1, 0, 0) 25 (0, 5, 0) (3 / 4))) = 0.75
   \<and> brake (fst (controller_forward simple_extern
          (SteerNoiseWrapper (simple_pid_new DEFAULT_LATERAL_DICT DEFAULT_LONGITUDINAL_DICT 0.75 0.3 0.8)
             ''uniform'' (- 0.3) 0.3)
          20 (0.5, 0, 0) (1, 0, 0) 25 (0, 5, 0) (3 / 4))) = 0
   \<and> steer (fst (pid_forward simple_extern
          (simple_pid_new DEFAULT_LATERAL_DICT DEFAULT_LONGITUDINAL_DICT 0.75 0.3 0.8)
          20 (0.5, 0, 0) (1, 0, 0) 25 (0, 5, 0))) = - 0.5
   \<and> steer (fst (controller_forward simple_extern
          (SteerNoiseWrapper (simple_pid_new DEFAULT_LATERAL_DICT DEFAULT_LONGITUDINAL_DICT 0.75 0.3 0.8)
             ''uniform'' (- 0.3) 0.3)
          20 (0.5, 0, 0) (1, 0, 0) 25 (0, 5, 0) (3 / 4))) = - 0.35
   \<and> - 0.8 \<le> steer (fst (controller_forward simple_extern
          (SteerNoiseWrapper (simple_pid_new DEFAULT_LATERAL_DICT DEFAULT_LONGITUDINAL_DICT 0.75 0.3 0.8)
             ''uniform'' (- 0.3) 0.3)
          20 (0.5, 0, 0) (1, 0, 0) 25 (0, 5, 0) (3 / 4)))
   \<and> steer (fst (controller_forward simple_extern
          (SteerNoiseWrapper (simple_pid_new DEFAULT_LATERAL_DICT DEFAULT_LONGITUDINAL_DICT 0.75 0.3 0.8)
             ''uniform'' (- 0.3) 0.3)
          20 (0.5, 0, 0) (1, 0, 0) 25 (0, 5, 0) (3 / 4))) \<le> - 0.2"
proof -
  let ?c = "default_config\<lparr>cfg_noise := True\<rparr>"
  let ?s = "reset simple_extern 0 False (AutoPolicy_new ?c) :: simple_pid AutoPolicy"
  let ?p = "simple_pid_new DEFAULT_LATERAL_DICT DEFAULT_LONGITUDINAL_DICT 0.75 0.3 0.8"
  let ?w = "SteerNoiseWrapper ?p ''uniform'' (- 0.3) 0.3"
  have reach: "reachable simple_extern ?c ?s [LogReset 0]"
    by (intro reachable.intros)
  have flag: "cfg_noise ?c" by simp
  have mem: "(0 :: int) \<in> set [0]" by simp
  have bare: "dict_getitem (controller_dict ?s) 0 = Some (PID ?p)"
    by (simp add: reset_getitem new_entry_def AutoPolicy_new_fields default_config_def
          resolve_gains_def simple_extern_def)
  have keys: "dict_keys (controller_dict ?s) = [0]"
    by (rule keys_after_first_reset)
  have raw: "fst (pid_forward simple_extern ?p 20 (0.5, 0, 0) (1, 0, 0) 25 (0, 5, 0))
               = \<lparr>steer = - 0.5, throttle = 0.75, brake = 0\<rparr>"
    by (simp add: simple_extern_def simple_pid_forward_def simple_pid_new_def
          DEFAULT_LATERAL_DICT_def DEFAULT_LONGITUDINAL_DICT_def Let_def)
  have draw: "uniform (- 0.3) 0.3 (3 / 4) = 0.15"
    by (simp add: uniform_def)
  have range: "(- 0.3 :: real) \<le> 0.3 \<and> (0 :: real) \<le> 3 / 4 \<and> (3 / 4 :: real) \<le> 1"
    by simp
  note inst = noise_wrapper_only_in_collect_mode [OF reach, of 0 "[0]" None ?p
      "''uniform''" "- 0.3" "0.3" 20 "(0.5, 0, 0)" "(1, 0, 0)" 25 "(0, 5, 0)" "3 / 4"]
  from inst flag have A: "\<exists>pid. dict_getitem (controller_dict (snd (reset_eval simple_extern (Some [0]) ?s))) 0
                 = Some (PID pid)
            \<and> dict_getitem (controller_dict (snd (reset_collect simple_extern (Some [0]) ?s))) 0
                 = Some (SteerNoiseWrapper pid ''uniform'' (- 0.3) 0.3)"
    by simp
  from inst obtain pid ks ks'
    where ks: "hd (dict_keys (controller_dict ?s)) \<in> set ks"
      and ks': "hd (dict_keys (controller_dict ?s)) \<in> set ks'"
      and ev: "\<forall>j. dict_getitem (controller_dict (snd (reset_eval simple_extern None ?s))) j
                 = (if j \<in> set ks then Some (PID pid) else dict_getitem (controller_dict ?s) j)"
      and co: "\<forall>j. dict_getitem (controller_dict (snd (reset_collect simple_extern None ?s))) j
                 = (if j \<in> set ks'
                    then Some (if cfg_noise ?c then SteerNoiseWrapper pid ''uniform'' (- 0.3) 0.3
                               else PID pid)
                    else dict_getitem (controller_dict ?s) j)"
    unfolding keys by auto
  from ks ks' have "0 \<in> set ks" and "0 \<in> set ks'"
    by (simp_all add: keys)
  with ev co flag have B: "\<exists>pid. dict_getitem (controller_dict (snd (reset_eval simple_extern None ?s))) 0
                 = Some (PID pid)
            \<and> dict_getitem (controller_dict (snd (reset_collect simple_extern None ?s))) 0
                 = Some (SteerNoiseWrapper pid ''uniform'' (- 0.3) 0.3)"
    by auto
  from inst have C: "throttle (fst (controller_forward simple_extern ?w
          20 (0.5, 0, 0) (1, 0, 0) 25 (0, 5, 0) (3 / 4))) = 0.75"
    and D: "brake (fst (controller_forward simple_extern ?w
          20 (0.5, 0, 0) (1, 0, 0) 25 (0, 5, 0) (3 / 4))) = 0"
    unfolding raw by simp_all
  from inst have F: "steer (fst (controller_forward simple_extern ?w
          20 (0.5, 0, 0) (1, 0, 0) 25 (0, 5, 0) (3 / 4))) = - 0.35"
    unfolding raw draw by simp
  have R: "steer (fst (pid_forward simple_extern ?p 20 (0.5, 0, 0) (1, 0, 0) 25 (0, 5, 0))) = - 0.5"
    unfolding raw by simp
  from reach mem bare A B range C D R F show ?thesis by simp
qed

subsection \<open>Forward without a controller\<close>

lemma getitem_None_keys: "dict_getitem d k = None \<longleftrightarrow> k \<notin> set (dict_keys d)"
  by (simp add: dict_getitem_def dict_keys_def map_of_eq_None_iff)

lemma forward_loop_raises:
  assumes "reachable api c s hist"
    and "(i, ob) \<in> set data"
    and "dict_getitem (controller_dict s) i = None"
  shows "\<exists>k s'. forward_loop api data us acts s = (Inl (KeyError k), s')
           \<and> k \<in> fst ` set data \<and> dict_getitem (controller_dict s) k = None"
  using assms
proof (induction data arbitrary: s hist acts)
  case Nil
  then show ?case by simp
next
  case (Cons x data)
  obtain j obj where x: "x = (j, obj)" by (cases x) blast
  show ?case
  proof (cases "dict_getitem (controller_dict s) j")
    case None
    then show ?thesis
      by (simp add: x forward_missing)
  next
    case (Some ctrl)
    from Cons.prems(1) have inv: "policy_inv c s hist" by (rule reachable_inv)
    from Some have "dict_contains (controller_dict s) j" by (simp add: dict_contains_def)
    with inv obtain st where "last_steer_dict s j = Some st"
      by (simp add: policy_inv_def)
    from forward_answers [OF Some this] obtain ctl s1
      where fw: "forward api j obj (us j) s = (Inr ctl, s1)" by blast
    from Cons.prems(1) fw have reach: "reachable api c s1 (LogForward j obj (Inr ctl) # hist)"
      by (rule reachable_forward)
    have keys: "dict_keys (controller_dict s1) = dict_keys (controller_dict s)"
      using forward_keys [of api j obj "us j" s] fw by simp
    from Cons.prems(2,3) Some x have mem: "(i, ob) \<in> set data" by auto
    from Cons.prems(3) keys have miss: "dict_getitem (controller_dict s1) i = None"
      by (simp add: getitem_None_keys)
    from Cons.IH [OF reach mem miss, of "acts @ [(j, \<lparr>action = ctl\<rparr>)]"]
    show ?thesis
      by (auto simp: x fw getitem_None_keys keys)
  qed
qed

text \<open>
  C7. In a reachable state, \<open>_forward\<close> for an id without a controller raises KeyError for
  that id, whatever the observation, and leaves the policy as it was; a batch that contains
  such an id makes \<open>_forward_eval\<close> and \<open>_forward_collect\<close> end in a KeyError for an id of the
  batch that has no controller, instead of returning actions.
\<close>

theorem forward_without_controller_raises_KeyError:
  assumes "reachable api c s hist"
    and "(i, ob) \<in> set data"
    and "dict_getitem (controller_dict s) i = None"
  shows "forward api i ob u s = (Inl (KeyError i), s)
         \<and> (\<exists>k s'. forward_eval api data us s = (Inl (KeyError k), s')
                \<and> k \<in> fst ` set data \<and> dict_getitem (controller_dict s) k = None)
         \<and> (\<exists>k s'. forward_collect api data us s = (Inl (KeyError k), s')
                \<and> k \<in> fst ` set data \<and> dict_getitem (controller_dict s) k = None)"
  using forward_loop_raises [OF assms, of us "[]"] forward_missing [OF assms(3)]
  by (simp add: forward_eval_def forward_collect_def)

theorem forward_without_controller_raises_KeyError_witness:
  "reachable simple_extern default_config
     (reset simple_extern 0 False (AutoPolicy_new default_config)) [LogReset 0]
   \<and> (7, obs_red) \<in> set [(0, obs_clear), (7, obs_red)]
   \<and> dict_getitem (controller_dict (reset simple_extern 0 False (AutoPolicy_new default_config))) 7
       = None
   \<and> fst (forward simple_extern 7 obs_red 0
            (reset simple_extern 0 False (AutoPolicy_new default_config))) = Inl (KeyError 7)
   \<and> fst (forward_eval simple_extern [(0, obs_clear), (7, obs_red)] no_noise
            (reset simple_extern 0 False (AutoPolicy_new default_config))) = Inl (KeyError 7)"
proof -
  let ?s = "reset simple_extern 0 False (AutoPolicy_new default_config) :: simple_pid AutoPolicy"
  have reach: "reachable simple_extern default_config ?s [LogReset 0]"
    by (intro reachable.intros)
  have mem: "(7, obs_red) \<in> set [(0, obs_clear), (7, obs_red)]" by simp
  have miss: "dict_getitem (controller_dict ?s) 7 = None"
    by (simp add: reset_getitem AutoPolicy_new_fields dict_new_getitem)
  have present: "dict_getitem (controller_dict ?s) 0 \<noteq> None"
    by (simp add: reset_getitem)
  from forward_without_controller_raises_KeyError [OF reach mem miss, of 0 no_noise]
  obtain k s' where a: "forward simple_extern 7 obs_red 0 ?s = (Inl (KeyError 7), ?s)"
    and b: "forward_eval simple_extern [(0, obs_clear), (7, obs_red)] no_noise ?s
              = (Inl (KeyError k), s')"
    and k: "k \<in> fst ` set [(0, obs_clear), (7, obs_red)]"
    and none: "dict_getitem (controller_dict ?s) k = None"
    by blast
  from k none present have "k = 7" by auto
  with reach mem miss a b show ?thesis by simp
qed

end
